theory Spec2Isabelle
  imports Main "HOL-Library.Word" "HOL-Library.Signed_Division"
begin

section \<open>C values, buffers and outcomes\<close>

text \<open>
  The model in \<^verbatim>\<open>source/evp_override.c\<close> is C code for a bounded model checker.
  An \<^verbatim>\<open>int\<close> is a 32-bit word read with \<open>sint\<close>, an \<^verbatim>\<open>unsigned int\<close> a 32-bit word
  read with \<open>uint\<close>, a \<^verbatim>\<open>size_t\<close> a 64-bit word, a byte an 8-bit word.
  An allocated byte object is the list of its bytes (its size is the length of the list);
  a pointer to the start of such an object is \<open>Some\<close> of it, the null pointer is \<open>None\<close>.
\<close>

type_synonym c_int = "32 word"
type_synonym c_uint = "32 word"
type_synonym size_t = "64 word"
type_synonym byte = "8 word"
type_synonym buffer = "byte list"
type_synonym ptr = "buffer option"

text \<open>
  A call ends in one of three ways: an \<^verbatim>\<open>assert\<close> fails or a null pointer is dereferenced
  (\<open>Violation\<close>), a \<^verbatim>\<open>__CPROVER_assume\<close> excludes the chosen nondeterministic values
  (\<open>Infeasible\<close>: no execution exists with these values), or the call returns (\<open>Done\<close>).
  Every nondeterministic value of the source (\<^verbatim>\<open>nondet_bool()\<close>, an uninitialised local)
  is an explicit argument of the modelled function.
\<close>

datatype 'a outcome = Violation | Infeasible | Done 'a

definition bind_outcome :: "'a outcome \<Rightarrow> ('a \<Rightarrow> 'b outcome) \<Rightarrow> 'b outcome" where
  "bind_outcome m f = (case m of Violation \<Rightarrow> Violation | Infeasible \<Rightarrow> Infeasible | Done x \<Rightarrow> f x)"

text \<open>The conversions of C between \<^verbatim>\<open>int\<close> and \<^verbatim>\<open>size_t\<close>: sign extension one way,
  truncation the other way.\<close>

definition int_to_size_t :: "c_int \<Rightarrow> size_t" where
  "int_to_size_t i = scast i"

definition size_t_to_int :: "size_t \<Rightarrow> c_int" where
  "size_t_to_int n = ucast n"

text \<open>Division and remainder of C on \<^verbatim>\<open>int\<close> truncate towards zero.\<close>

definition c_div :: "c_int \<Rightarrow> c_int \<Rightarrow> c_int" where
  "c_div a b = word_of_int (sint a sdiv sint b)"

definition c_mod :: "c_int \<Rightarrow> c_int \<Rightarrow> c_int" where
  "c_mod a b = word_of_int (sint a smod sint b)"

text \<open>
  Modelled from the spec: the primitives \<^verbatim>\<open>__CPROVER_w_ok\<close>, \<^verbatim>\<open>__CPROVER_r_ok\<close> and
  \<^verbatim>\<open>__CPROVER_OBJECT_SIZE\<close> belong to the model checker and are not in the source file.
  The spec reads them as "the buffer must be writable (readable) for that size": the
  pointer is not null and the object it points to has at least that many bytes.
\<close>

definition w_ok :: "ptr \<Rightarrow> size_t \<Rightarrow> bool" where
  "w_ok p n = (case p of None \<Rightarrow> False | Some b \<Rightarrow> unat n \<le> length b)"

definition r_ok :: "ptr \<Rightarrow> size_t \<Rightarrow> bool" where
  "r_ok p n = (case p of None \<Rightarrow> False | Some b \<Rightarrow> unat n \<le> length b)"

definition OBJECT_SIZE :: "ptr \<Rightarrow> nat" where
  "OBJECT_SIZE p = (case p of None \<Rightarrow> 0 | Some b \<Rightarrow> length b)"

text \<open>
  Modelled from the spec: \<^verbatim>\<open>write_unconstrained_data(out, len)\<close> is a helper of the
  repository that is not in the source file. The spec describes its use as "writes a
  nondeterministic amount of data": the first \<open>len\<close> bytes of the object are replaced by
  unconstrained bytes (\<open>fill\<close> chooses them), the rest is kept; the object must be
  writable for \<open>len\<close> bytes.
\<close>

definition write_unconstrained_data :: "ptr \<Rightarrow> size_t \<Rightarrow> (nat \<Rightarrow> byte) \<Rightarrow> ptr outcome" where
  "write_unconstrained_data out len fill =
     (case out of
        None \<Rightarrow> Violation
      | Some b \<Rightarrow>
          if unat len \<le> length b
          then Done (Some (map fill [0..<unat len] @ drop (unat len) b))
          else Violation)"

section \<open>The block codec\<close>

text \<open>
  \<^verbatim>\<open>EVP_DecodeBlock(t, f, n)\<close>. The result is the return value and the object at \<open>t\<close>
  after the call. The source has no store into \<open>t\<close>: it only asserts that \<open>t\<close> is
  writable for \<^verbatim>\<open>written_length\<close> bytes, so the object at \<open>t\<close> is returned as it was.
\<close>

definition EVP_DecodeBlock :: "ptr \<Rightarrow> ptr \<Rightarrow> c_int \<Rightarrow> bool \<Rightarrow> (c_int \<times> ptr) outcome" where
  "EVP_DecodeBlock t f n nondet_bool =
     (if n = 0 then Done (0, t)
      else if nondet_bool then Done (- 1, t)
      else if c_mod n 4 \<noteq> 0 then Violation
      else if \<not> r_ok f (int_to_size_t n) then Violation
      else
        let written_length = c_div n 4 * 3 in
        if \<not> w_ok t (int_to_size_t written_length) then Violation
        else Done (n, t))"

text \<open>\<^verbatim>\<open>EVP_EncodeBlock(t, f, n)\<close>, with the same result; the source has no store into
  \<open>t\<close> here either, not even of the terminator.\<close>

definition EVP_EncodeBlock :: "ptr \<Rightarrow> ptr \<Rightarrow> c_int \<Rightarrow> bool \<Rightarrow> (c_int \<times> ptr) outcome" where
  "EVP_EncodeBlock t f n nondet_bool =
     (if \<not> w_ok t 1 then Violation
      else if n = 0 then Done (0, t)
      else if nondet_bool then Done (- 1, t)
      else if \<not> r_ok f (int_to_size_t n) then Violation
      else
        let written_length = c_div n 3 * 4;
            written_length = written_length + (if c_mod n 3 \<noteq> 0 then 4 else 0);
            written_length = written_length + 1
        in
        if \<not> w_ok t (int_to_size_t written_length) then Violation
        else Done (written_length - 1, t))"

section \<open>Key objects\<close>

text \<open>
  An \<^verbatim>\<open>EVP_PKEY\<close> holds a reference count and a pointer to its key material. Keys are
  shared between the caller and the contexts bound to them, so they live in a heap:
  a pointer to a key is an address, \<open>pkeys\<close> gives the object at each allocated address.
  The heap also records, in order, every address given to \<^verbatim>\<open>free\<close> and every argument
  given to \<^verbatim>\<open>EC_KEY_free\<close>.

  Modelled from the spec: \<^verbatim>\<open>EC_KEY_free\<close> and \<^verbatim>\<open>ec_key_is_valid\<close> are defined in another
  file of the repository. The spec says that releasing a key "releases the inner
  key-material": the call is recorded with its argument. The validity check of the key
  material is a parameter \<open>ec_key_is_valid\<close> of the functions that use it.
\<close>

record EVP_PKEY =
  references :: c_int
  ec_key :: "nat option"

record key_heap =
  pkeys :: "nat \<Rightarrow> EVP_PKEY option"
  freed :: "nat list"
  EC_KEY_freed :: "nat option list"

type_synonym ENGINE = unit

definition EVP_PKEY_new :: "key_heap \<Rightarrow> nat option \<Rightarrow> (nat option \<times> key_heap) outcome" where
  "EVP_PKEY_new h malloc_result =
     (case malloc_result of
        None \<Rightarrow> Done (None, h)
      | Some a \<Rightarrow>
          if pkeys h a \<noteq> None then Infeasible
          else Done (Some a, h\<lparr>pkeys := (pkeys h)(a \<mapsto> \<lparr>references = 1, ec_key = None\<rparr>)\<rparr>))"

definition EVP_PKEY_free :: "nat option \<Rightarrow> key_heap \<Rightarrow> key_heap outcome" where
  "EVP_PKEY_free pkey h =
     (case pkey of
        None \<Rightarrow> Done h
      | Some a \<Rightarrow>
          (case pkeys h a of
             None \<Rightarrow> Violation
           | Some k \<Rightarrow>
               if 0 <s references k then
                 let k' = k\<lparr>references := references k - 1\<rparr> in
                 if references k' = 0
                 then Done (h\<lparr>pkeys := (pkeys h)(a := None),
                              freed := freed h @ [a],
                              EC_KEY_freed := EC_KEY_freed h @ [ec_key k']\<rparr>)
                 else Done (h\<lparr>pkeys := (pkeys h)(a \<mapsto> k')\<rparr>)
               else Done h))"

definition evp_pkey_is_valid :: "(nat \<Rightarrow> bool) \<Rightarrow> key_heap \<Rightarrow> nat option \<Rightarrow> bool" where
  "evp_pkey_is_valid ec_key_is_valid h pkey =
     (case pkey of
        None \<Rightarrow> False
      | Some a \<Rightarrow>
          (case pkeys h a of
             None \<Rightarrow> False
           | Some k \<Rightarrow>
               0 <s references k \<and>
               (case ec_key k of None \<Rightarrow> True | Some e \<Rightarrow> ec_key_is_valid e)))"

definition evp_pkey_get_reference_count :: "key_heap \<Rightarrow> nat option \<Rightarrow> c_int outcome" where
  "evp_pkey_get_reference_count h pkey =
     (case pkey of
        None \<Rightarrow> Done 0
      | Some a \<Rightarrow> (case pkeys h a of None \<Rightarrow> Violation | Some k \<Rightarrow> Done (references k)))"

section \<open>Key-operation contexts\<close>

record EVP_PKEY_CTX =
  is_initialized_for_signing :: bool
  is_initialized_for_derivation :: bool
  is_initialized_for_encryption :: bool
  is_initialized_for_decryption :: bool
  pkey :: "nat option"
  rsa_pad :: c_int

definition evp_pkey_ctx_is_valid ::
  "(nat \<Rightarrow> bool) \<Rightarrow> key_heap \<Rightarrow> EVP_PKEY_CTX option \<Rightarrow> bool" where
  "evp_pkey_ctx_is_valid ec_key_is_valid h ctx =
     (case ctx of
        None \<Rightarrow> False
      | Some c \<Rightarrow> pkey c = None \<or> evp_pkey_is_valid ec_key_is_valid h (pkey c))"

text \<open>
  \<^verbatim>\<open>EVP_PKEY_CTX_new(pkey, e)\<close>. \<open>malloc_ok\<close> says whether the allocation of the context
  succeeds; \<open>uninit_rsa_pad\<close> is the content of the field the source leaves uninitialised.
\<close>

definition EVP_PKEY_CTX_new ::
  "(nat \<Rightarrow> bool) \<Rightarrow> nat option \<Rightarrow> ENGINE option \<Rightarrow> key_heap \<Rightarrow> bool \<Rightarrow> c_int
     \<Rightarrow> (EVP_PKEY_CTX option \<times> key_heap) outcome" where
  "EVP_PKEY_CTX_new ec_key_is_valid pkey_arg e h malloc_ok uninit_rsa_pad =
     (if \<not> evp_pkey_is_valid ec_key_is_valid h pkey_arg then Violation
      else if e \<noteq> None then Violation
      else if \<not> malloc_ok then Done (None, h)
      else
        (case pkey_arg of
           None \<Rightarrow> Violation
         | Some a \<Rightarrow>
             (case pkeys h a of
                None \<Rightarrow> Violation
              | Some k \<Rightarrow>
                  Done (Some \<lparr>is_initialized_for_signing = False,
                               is_initialized_for_derivation = False,
                               is_initialized_for_encryption = False,
                               is_initialized_for_decryption = False,
                               pkey = pkey_arg,
                               rsa_pad = uninit_rsa_pad\<rparr>,
                        h\<lparr>pkeys := (pkeys h)(a \<mapsto> k\<lparr>references := references k + 1\<rparr>)\<rparr>))))"

definition EVP_PKEY_CTX_free :: "EVP_PKEY_CTX option \<Rightarrow> key_heap \<Rightarrow> key_heap outcome" where
  "EVP_PKEY_CTX_free ctx h =
     (case ctx of None \<Rightarrow> Done h | Some c \<Rightarrow> EVP_PKEY_free (pkey c) h)"

text \<open>Callers that bind a key \<open>n\<close> times (every allocation succeeding) and that release a
  key \<open>n\<close> times.\<close>

fun EVP_PKEY_CTX_new_times ::
  "(nat \<Rightarrow> bool) \<Rightarrow> nat \<Rightarrow> nat option \<Rightarrow> key_heap \<Rightarrow> key_heap outcome" where
  "EVP_PKEY_CTX_new_times ec_key_is_valid 0 p h = Done h"
| "EVP_PKEY_CTX_new_times ec_key_is_valid (Suc n) p h =
     bind_outcome (EVP_PKEY_CTX_new ec_key_is_valid p None h True 0)
       (\<lambda>r. EVP_PKEY_CTX_new_times ec_key_is_valid n p (snd r))"

fun EVP_PKEY_free_times :: "nat \<Rightarrow> nat option \<Rightarrow> key_heap \<Rightarrow> key_heap outcome" where
  "EVP_PKEY_free_times 0 p h = Done h"
| "EVP_PKEY_free_times (Suc n) p h =
     bind_outcome (EVP_PKEY_free p h) (EVP_PKEY_free_times n p)"

text \<open>
  The nondeterministic values of the calls that produce bytes: the choice between failure
  and success, the failure code, the amount of data written and the data itself.
\<close>

record produce_nondet =
  nondet_fails :: bool
  nondet_rv :: c_int
  amount_of_data_written :: size_t
  unconstrained :: "nat \<Rightarrow> byte"

text \<open>
  \<^verbatim>\<open>EVP_PKEY_sign(ctx, sig, siglen, tbs, tbslen)\<close>. The result is the return value, the
  \<open>sig\<close> buffer and the value at \<open>siglen\<close> after the call. \<^verbatim>\<open>max_signature_size()\<close> is
  defined in another file ("nondeterministic but fixed"): it is a parameter.
\<close>

definition EVP_PKEY_sign ::
  "(nat \<Rightarrow> bool) \<Rightarrow> size_t \<Rightarrow> key_heap \<Rightarrow> EVP_PKEY_CTX option \<Rightarrow> ptr \<Rightarrow> size_t option
     \<Rightarrow> ptr \<Rightarrow> size_t \<Rightarrow> produce_nondet \<Rightarrow> (c_int \<times> ptr \<times> size_t option) outcome" where
  "EVP_PKEY_sign ec_key_is_valid max_signature_size h ctx sig siglen tbs tbslen nd =
     (if \<not> evp_pkey_ctx_is_valid ec_key_is_valid h ctx then Violation
      else case ctx of None \<Rightarrow> Violation | Some c \<Rightarrow>
      if \<not> is_initialized_for_signing c then Violation
      else case siglen of None \<Rightarrow> Violation | Some cap \<Rightarrow>
      if \<not> (sig = None \<or> (max_signature_size \<le> cap \<and> w_ok sig cap)) then Violation
      else if tbs = None then Violation
      else if \<not> r_ok tbs tbslen then Violation
      else if nondet_fails nd then
        (if nondet_rv nd \<le>s 0 then Done (nondet_rv nd, sig, siglen) else Infeasible)
      else
        let max_required_size = max_signature_size in
        if sig = None then Done (1, sig, Some max_required_size)
        else if \<not> amount_of_data_written nd \<le> max_required_size then Infeasible
        else
          bind_outcome (write_unconstrained_data sig (amount_of_data_written nd) (unconstrained nd))
            (\<lambda>sig'. Done (1, sig', Some (amount_of_data_written nd))))"

text \<open>\<^verbatim>\<open>EVP_PKEY_derive(ctx, key, keylen)\<close>, with \<^verbatim>\<open>max_derivation_size()\<close> as a parameter.\<close>

definition EVP_PKEY_derive ::
  "size_t \<Rightarrow> EVP_PKEY_CTX option \<Rightarrow> ptr \<Rightarrow> size_t option \<Rightarrow> produce_nondet
     \<Rightarrow> (c_int \<times> ptr \<times> size_t option) outcome" where
  "EVP_PKEY_derive max_derivation_size ctx key keylen nd =
     (case ctx of None \<Rightarrow> Violation | Some c \<Rightarrow>
      if \<not> is_initialized_for_derivation c then Violation
      else case keylen of None \<Rightarrow> Violation | Some cap \<Rightarrow>
        let max_required_size = max_derivation_size in
        if nondet_fails nd then
          (if nondet_rv nd \<le>s 0 then Done (nondet_rv nd, key, keylen) else Infeasible)
        else if key = None then Done (1, key, Some max_required_size)
        else if \<not> amount_of_data_written nd \<le> cap then Infeasible
        else
          bind_outcome (write_unconstrained_data key (amount_of_data_written nd) (unconstrained nd))
            (\<lambda>key'. Done (1, key', Some (amount_of_data_written nd))))"

text \<open>\<^verbatim>\<open>EVP_PKEY_encrypt\<close> and \<^verbatim>\<open>EVP_PKEY_decrypt\<close> share one body up to the name of the
  maximum size; \<open>outlen\<close> is dereferenced on the success path only.\<close>

definition EVP_PKEY_encrypt ::
  "size_t \<Rightarrow> EVP_PKEY_CTX option \<Rightarrow> ptr \<Rightarrow> size_t option \<Rightarrow> ptr \<Rightarrow> size_t \<Rightarrow> produce_nondet
     \<Rightarrow> (c_int \<times> ptr \<times> size_t option) outcome" where
  "EVP_PKEY_encrypt max_encryption_size ctx out outlen inp inlen nd =
     (case ctx of None \<Rightarrow> Violation | Some c \<Rightarrow>
        let max_required_size = max_encryption_size in
        if nondet_fails nd then
          (if nondet_rv nd \<le>s 0 then Done (nondet_rv nd, out, outlen) else Infeasible)
        else case outlen of None \<Rightarrow> Violation | Some cap \<Rightarrow>
        if out = None then Done (1, out, Some max_required_size)
        else if \<not> amount_of_data_written nd \<le> cap then Infeasible
        else
          bind_outcome (write_unconstrained_data out (amount_of_data_written nd) (unconstrained nd))
            (\<lambda>out'. Done (1, out', Some (amount_of_data_written nd))))"

definition EVP_PKEY_decrypt ::
  "size_t \<Rightarrow> EVP_PKEY_CTX option \<Rightarrow> ptr \<Rightarrow> size_t option \<Rightarrow> ptr \<Rightarrow> size_t \<Rightarrow> produce_nondet
     \<Rightarrow> (c_int \<times> ptr \<times> size_t option) outcome" where
  "EVP_PKEY_decrypt max_decryption_size ctx out outlen inp inlen nd =
     (case ctx of None \<Rightarrow> Violation | Some c \<Rightarrow>
        let max_required_size = max_decryption_size in
        if nondet_fails nd then
          (if nondet_rv nd \<le>s 0 then Done (nondet_rv nd, out, outlen) else Infeasible)
        else case outlen of None \<Rightarrow> Violation | Some cap \<Rightarrow>
        if out = None then Done (1, out, Some max_required_size)
        else if \<not> amount_of_data_written nd \<le> cap then Infeasible
        else
          bind_outcome (write_unconstrained_data out (amount_of_data_written nd) (unconstrained nd))
            (\<lambda>out'. Done (1, out', Some (amount_of_data_written nd))))"

section \<open>Digest descriptors and digest contexts\<close>

datatype evp_sha = EVP_MD5 | EVP_SHA1 | EVP_SHA224 | EVP_SHA256 | EVP_SHA384 | EVP_SHA512

text \<open>The fields of \<^verbatim>\<open>EVP_MD\<close> that the source names: \<^verbatim>\<open>from\<close>, \<^verbatim>\<open>md_size\<close> and
  \<^verbatim>\<open>ctx_size\<close>.\<close>

record EVP_MD =
  md_from :: evp_sha
  md_size :: c_int
  ctx_size :: c_int

definition EVP_md5 :: EVP_MD where
  "EVP_md5 = \<lparr>md_from = EVP_MD5, md_size = 16, ctx_size = 16\<rparr>"

definition EVP_sha1 :: EVP_MD where
  "EVP_sha1 = \<lparr>md_from = EVP_SHA1, md_size = 20, ctx_size = 20\<rparr>"

definition EVP_sha224 :: EVP_MD where
  "EVP_sha224 = \<lparr>md_from = EVP_SHA224, md_size = 28, ctx_size = 28\<rparr>"

definition EVP_sha256 :: EVP_MD where
  "EVP_sha256 = \<lparr>md_from = EVP_SHA256, md_size = 32, ctx_size = 32\<rparr>"

definition EVP_sha384 :: EVP_MD where
  "EVP_sha384 = \<lparr>md_from = EVP_SHA384, md_size = 48, ctx_size = 48\<rparr>"

definition EVP_sha512 :: EVP_MD where
  "EVP_sha512 = \<lparr>md_from = EVP_SHA512, md_size = 64, ctx_size = 64\<rparr>"

definition EVP_MD_size :: "EVP_MD option \<Rightarrow> c_int outcome" where
  "EVP_MD_size md =
     (case md of
        None \<Rightarrow> Violation
      | Some m \<Rightarrow>
          Done (if md_from m = EVP_MD5 then 16
                else if md_from m = EVP_SHA1 then 20
                else if md_from m = EVP_SHA224 then 28
                else if md_from m = EVP_SHA256 then 32
                else if md_from m = EVP_SHA384 then 48
                else 64))"

definition evp_md_is_valid :: "EVP_MD option \<Rightarrow> bool" where
  "evp_md_is_valid md =
     (case md of
        None \<Rightarrow> False
      | Some m \<Rightarrow>
          (md_from m = EVP_MD5 \<and> md_size m = 16) \<or> (md_from m = EVP_SHA1 \<and> md_size m = 20) \<or>
          (md_from m = EVP_SHA224 \<and> md_size m = 28) \<or> (md_from m = EVP_SHA256 \<and> md_size m = 32) \<or>
          (md_from m = EVP_SHA384 \<and> md_size m = 48) \<or> (md_from m = EVP_SHA512 \<and> md_size m = 64))"

record EVP_MD_CTX =
  digest :: "EVP_MD option"
  md_data :: ptr
  pctx :: "EVP_PKEY_CTX option"
  flags :: c_int

definition EVP_MD_CTX_size :: "EVP_MD_CTX option \<Rightarrow> c_int outcome" where
  "EVP_MD_CTX_size ctx =
     (case ctx of None \<Rightarrow> Violation | Some c \<Rightarrow> EVP_MD_size (digest c))"

text \<open>
  \<^verbatim>\<open>EVP_DigestFinal_ex(ctx, md, s)\<close>. The result is the return value, the context, the
  \<open>md\<close> buffer and the value at \<open>s\<close> after the call. The nondeterministic values are the
  byte stored into \<open>md\<close>, the choice of failure and the uninitialised local
  \<^verbatim>\<open>garbage\<close>.
\<close>

definition EVP_DigestFinal_ex ::
  "EVP_MD_CTX option \<Rightarrow> ptr \<Rightarrow> c_uint option \<Rightarrow> byte \<Rightarrow> bool \<Rightarrow> c_uint
     \<Rightarrow> (c_int \<times> EVP_MD_CTX \<times> ptr \<times> c_uint option) outcome" where
  "EVP_DigestFinal_ex ctx md s nondet_unsigned_char nondet_bool garbage =
     (case ctx of None \<Rightarrow> Violation | Some c \<Rightarrow>
      bind_outcome (EVP_MD_CTX_size ctx) (\<lambda>size.
        if \<not> w_ok md (int_to_size_t size) then Violation
        else case md of None \<Rightarrow> Violation | Some b \<Rightarrow>
          if b = [] then Violation
          else
            let md' = Some (b[0 := nondet_unsigned_char]);
                s' = (case s of None \<Rightarrow> None | Some old \<Rightarrow> Some size);
                c' = c\<lparr>digest := None\<rparr>
            in
            if nondet_bool
            then Done (0, c', md', (case s' of None \<Rightarrow> None | Some old \<Rightarrow> Some garbage))
            else Done (1, c', md', s')))"

section \<open>Cipher descriptors and cipher contexts\<close>

datatype evp_aes = EVP_AES_128_GCM | EVP_AES_192_GCM | EVP_AES_256_GCM | EVP_AES_128_ECB

record EVP_CIPHER =
  cipher_from :: evp_aes
  block_size :: c_int

definition EVP_aes_128_gcm :: EVP_CIPHER where
  "EVP_aes_128_gcm = \<lparr>cipher_from = EVP_AES_128_GCM, block_size = 128\<rparr>"

definition EVP_aes_192_gcm :: EVP_CIPHER where
  "EVP_aes_192_gcm = \<lparr>cipher_from = EVP_AES_192_GCM, block_size = 128\<rparr>"

definition EVP_aes_256_gcm :: EVP_CIPHER where
  "EVP_aes_256_gcm = \<lparr>cipher_from = EVP_AES_256_GCM, block_size = 128\<rparr>"

definition EVP_aes_128_ecb :: EVP_CIPHER where
  "EVP_aes_128_ecb = \<lparr>cipher_from = EVP_AES_128_ECB, block_size = 128\<rparr>"

record EVP_CIPHER_CTX =
  cipher :: "EVP_CIPHER option"
  encrypt :: c_int
  iv_len :: c_int
  iv_set :: bool
  key_len :: c_int
  padding :: bool
  data_processed :: bool
  data_remaining :: c_int

text \<open>\<^verbatim>\<open>EVP_CIPHER_CTX_new()\<close>; the source leaves \<^verbatim>\<open>encrypt\<close> uninitialised.\<close>

definition EVP_CIPHER_CTX_new :: "bool \<Rightarrow> c_int \<Rightarrow> EVP_CIPHER_CTX option" where
  "EVP_CIPHER_CTX_new malloc_ok uninit_encrypt =
     (if malloc_ok
      then Some \<lparr>cipher = None, encrypt = uninit_encrypt, iv_len = 12, iv_set = False,
                  key_len = 32, padding = True, data_processed = False, data_remaining = 0\<rparr>
      else None)"

text \<open>\<^verbatim>\<open>EVP_CipherInit_ex(ctx, cipher, impl, key, iv, enc)\<close>; \<open>rv\<close> is the uninitialised
  local that is returned.\<close>

definition EVP_CipherInit_ex ::
  "EVP_CIPHER_CTX option \<Rightarrow> EVP_CIPHER option \<Rightarrow> ENGINE option \<Rightarrow> ptr \<Rightarrow> ptr \<Rightarrow> c_int \<Rightarrow> c_int
     \<Rightarrow> (c_int \<times> EVP_CIPHER_CTX) outcome" where
  "EVP_CipherInit_ex ctx cipher_arg impl key iv enc rv =
     (case ctx of None \<Rightarrow> Violation | Some c \<Rightarrow>
      if \<not> (enc = 0 \<or> enc = 1 \<or> enc = - 1) then Violation
      else
        let c1 = (if enc \<noteq> - 1 then c\<lparr>encrypt := enc\<rparr> else c);
            c2 = (if cipher_arg \<noteq> None then c1\<lparr>cipher := cipher_arg\<rparr> else c1);
            c3 = (if iv \<noteq> None then c2\<lparr>iv_set := True\<rparr> else c2)
        in
        if rv = 0 \<or> rv = 1 then Done (rv, c3) else Infeasible)"

text \<open>
  \<^verbatim>\<open>EVP_EncryptUpdate(ctx, out, outl, in, inl)\<close>. The result is the return value, the
  context and the value at \<open>outl\<close> after the call. \<open>rv\<close> and \<open>out_size\<close> are the
  uninitialised locals. The comparison \<^verbatim>\<open>out_size <= inl - 1\<close> is made in \<^verbatim>\<open>size_t\<close>, as C
  converts the \<^verbatim>\<open>int\<close> operand; the assignment \<^verbatim>\<open>*outl = out_size\<close> truncates.
  The assumption \<^verbatim>\<open>out_size >= 0\<close> holds for every \<^verbatim>\<open>size_t\<close> and excludes nothing. The
  source stores nothing into \<open>out\<close>: it only requires \<open>out\<close> to be writable for
  \<^verbatim>\<open>out_size\<close> bytes.
\<close>

definition EVP_EncryptUpdate ::
  "EVP_CIPHER_CTX option \<Rightarrow> ptr \<Rightarrow> c_int option \<Rightarrow> ptr \<Rightarrow> c_int \<Rightarrow> c_int \<Rightarrow> size_t
     \<Rightarrow> (c_int \<times> EVP_CIPHER_CTX \<times> c_int option) outcome" where
  "EVP_EncryptUpdate ctx out outl inp inl rv out_size =
     (case ctx of None \<Rightarrow> Violation | Some c \<Rightarrow>
      if data_processed c then Violation
      else if \<not> (rv = 0 \<or> rv = 1) then Infeasible
      else if out = None then Done (rv, c, outl)
      else
        bind_outcome
          (if cipher c \<noteq> None
           then (if out_size \<le> int_to_size_t (inl - 1) then Done c else Infeasible)
           else (if out_size \<le> int_to_size_t inl
                 then Done (c\<lparr>data_remaining := size_t_to_int (int_to_size_t inl - out_size)\<rparr>)
                 else Infeasible))
          (\<lambda>c'.
             if \<not> unat out_size \<le> OBJECT_SIZE out then Violation
             else if \<not> w_ok out out_size then Violation
             else case outl of None \<Rightarrow> Violation
                  | Some old \<Rightarrow> Done (rv, c', Some (size_t_to_int out_size))))"

definition EVP_DecryptUpdate ::
  "EVP_CIPHER_CTX option \<Rightarrow> ptr \<Rightarrow> c_int option \<Rightarrow> ptr \<Rightarrow> c_int \<Rightarrow> c_int \<Rightarrow> size_t
     \<Rightarrow> (c_int \<times> EVP_CIPHER_CTX \<times> c_int option) outcome" where
  "EVP_DecryptUpdate ctx out outl inp inl rv out_size =
     (case ctx of None \<Rightarrow> Violation | Some c \<Rightarrow>
      if data_processed c then Violation
      else if \<not> (rv = 0 \<or> rv = 1) then Infeasible
      else if out = None then Done (rv, c, outl)
      else
        bind_outcome
          (if cipher c \<noteq> None
           then (if padding c
                 then (if out_size \<le> int_to_size_t inl then Done c else Infeasible)
                 else Done c)
           else (if out_size \<le> int_to_size_t inl
                 then Done (c\<lparr>data_remaining := size_t_to_int (int_to_size_t inl - out_size)\<rparr>)
                 else Infeasible))
          (\<lambda>c'.
             if \<not> unat out_size \<le> OBJECT_SIZE out then Violation
             else if \<not> w_ok out out_size then Violation
             else case outl of None \<Rightarrow> Violation
                  | Some old \<Rightarrow> Done (rv, c', Some (size_t_to_int out_size))))"

definition EVP_CipherUpdate ::
  "EVP_CIPHER_CTX option \<Rightarrow> ptr \<Rightarrow> c_int option \<Rightarrow> ptr \<Rightarrow> c_int \<Rightarrow> c_int \<Rightarrow> size_t
     \<Rightarrow> (c_int \<times> EVP_CIPHER_CTX \<times> c_int option) outcome" where
  "EVP_CipherUpdate ctx out outl inp inl rv out_size =
     (case ctx of None \<Rightarrow> Violation | Some c \<Rightarrow>
      if encrypt c \<noteq> 0 then EVP_EncryptUpdate ctx out outl inp inl rv out_size
      else EVP_DecryptUpdate ctx out outl inp inl rv out_size)"

section \<open>HMAC contexts\<close>

record HMAC_CTX =
  is_initialized :: bool
  md :: "EVP_MD option"

definition hmac_ctx_is_valid :: "HMAC_CTX option \<Rightarrow> bool" where
  "hmac_ctx_is_valid ctx = (case ctx of None \<Rightarrow> False | Some c \<Rightarrow> is_initialized c)"

definition HMAC_Update :: "HMAC_CTX option \<Rightarrow> ptr \<Rightarrow> size_t \<Rightarrow> c_int \<Rightarrow> c_int outcome" where
  "HMAC_Update ctx data len rv =
     (if \<not> hmac_ctx_is_valid ctx then Violation
      else if rv = 1 \<or> rv = 0 then Done rv else Infeasible)"

text \<open>
  \<^verbatim>\<open>HMAC_Final(ctx, md, len)\<close>. The result is the return value, the \<open>md\<close> buffer and the
  value at \<open>len\<close> after the call. The source evaluates \<^verbatim>\<open>__CPROVER_w_ok(md, md_size)\<close> as a
  statement and drops its value; a null \<open>md\<close> is excluded by an assumption, not by an
  assertion.
\<close>

definition HMAC_Final ::
  "HMAC_CTX option \<Rightarrow> ptr \<Rightarrow> c_uint option \<Rightarrow> c_int \<Rightarrow> (c_int \<times> ptr \<times> c_uint option) outcome" where
  "HMAC_Final ctx md_buf len rv =
     (if \<not> hmac_ctx_is_valid ctx then Violation
      else case ctx of None \<Rightarrow> Violation | Some c \<Rightarrow>
      if md c = None then Violation
      else
        bind_outcome (EVP_MD_size (md c)) (\<lambda>md_size.
          let dropped = w_ok md_buf (int_to_size_t md_size) in
          case len of None \<Rightarrow> Violation | Some old \<Rightarrow>
          if \<not> (rv = 1 \<or> rv = 0) then Infeasible
          else if md_buf = None then Infeasible
          else Done (rv, md_buf, Some md_size)))"

section \<open>Concrete key heaps\<close>

text \<open>A heap with one key at address 7, with a given reference count and no key material,
  and the heap with no key.\<close>

definition example_key_heap :: "c_int \<Rightarrow> key_heap" where
  "example_key_heap r =
     \<lparr>pkeys = (\<lambda>a. if a = 7 then Some \<lparr>references = r, ec_key = None\<rparr> else None),
      freed = [], EC_KEY_freed = []\<rparr>"

definition empty_key_heap :: key_heap where
  "empty_key_heap = \<lparr>pkeys = (\<lambda>a. None), freed = [], EC_KEY_freed = []\<rparr>"

section \<open>Concrete contexts, buffers and nondeterministic choices\<close>

text \<open>A key-operation context bound to the key at address 7 and initialised for every
  operation, a choice of nondeterministic values, a digest context initialised with MD5,
  a buffer of 16 zero bytes, and two cipher contexts with a cipher configured: one for
  decryption with padding disabled, one for encryption with padding enabled.\<close>

definition example_pkey_ctx :: EVP_PKEY_CTX where
  "example_pkey_ctx =
     \<lparr>is_initialized_for_signing = True, is_initialized_for_derivation = True,
      is_initialized_for_encryption = True, is_initialized_for_decryption = True,
      pkey = Some 7, rsa_pad = 0\<rparr>"

definition example_nondet :: "bool \<Rightarrow> c_int \<Rightarrow> size_t \<Rightarrow> produce_nondet" where
  "example_nondet f r n =
     \<lparr>nondet_fails = f, nondet_rv = r, amount_of_data_written = n, unconstrained = (\<lambda>i. 255)\<rparr>"

definition example_md_ctx :: EVP_MD_CTX where
  "example_md_ctx = \<lparr>digest = Some EVP_md5, md_data = None, pctx = None, flags = 0\<rparr>"

definition zeros6 :: buffer where
  "zeros6 = [0, 0, 0, 0, 0, 0]"

definition ones6 :: buffer where
  "ones6 = [255, 255, 255, 255, 255, 255]"

definition ones5 :: buffer where
  "ones5 = [255, 255, 255, 255, 255]"

definition zeros16 :: buffer where
  "zeros16 = [0, 0, 0, 0, 0, 0, 0, 0, 0, 0, 0, 0, 0, 0, 0, 0]"

definition example_decrypt_ctx :: EVP_CIPHER_CTX where
  "example_decrypt_ctx =
     \<lparr>cipher = Some EVP_aes_128_gcm, encrypt = 0, iv_len = 12, iv_set = False, key_len = 32,
      padding = False, data_processed = False, data_remaining = 0\<rparr>"

definition example_cipher_ctx :: EVP_CIPHER_CTX where
  "example_cipher_ctx =
     \<lparr>cipher = Some EVP_aes_128_gcm, encrypt = 1, iv_len = 12, iv_set = False, key_len = 32,
      padding = True, data_processed = False, data_remaining = 0\<rparr>"

section \<open>Arithmetic of the C integer types\<close>

lemma sint_c_int_bounds: "- (2 ^ 31) \<le> sint (n::c_int) \<and> sint n < 2 ^ 31"
  using sint_ge[of n] sint_lt[of n] by simp

lemma sint_word_of_int_small:
  "- (2 ^ 31) \<le> i \<Longrightarrow> i < 2 ^ 31 \<Longrightarrow> sint (word_of_int i :: c_int) = i"
  by (simp add: sint_sbintrunc' signed_take_bit_int_eq_self)

lemma c_int_eq_0_iff: "(w = 0) = (sint (w::c_int) = 0)"
  by (simp add: signed_eq_0_iff)

lemma sint_c_div_pos:
  assumes "0 \<le> sint n" and "0 < sint k"
  shows "sint (c_div n k) = sint n div sint k"
proof -
  have lt: "sint n < 2 ^ 31" using sint_c_int_bounds[of n] by simp
  have e: "sint n sdiv sint k = sint n div sint k"
    using assms by (simp add: signed_divide_int_def sgn_if)
  have "0 \<le> sint n div sint k" using assms by (simp add: pos_imp_zdiv_nonneg_iff)
  moreover have "sint n div sint k \<le> sint n div 1"
    using assms by (intro zdiv_mono2) simp_all
  ultimately show ?thesis using lt
    by (simp add: c_div_def e sint_word_of_int_small)
qed

lemma sint_c_mod_pos:
  assumes "0 \<le> sint n" and "0 < sint k"
  shows "sint (c_mod n k) = sint n mod sint k"
proof -
  have lt: "sint k < 2 ^ 31" using sint_c_int_bounds[of k] by simp
  have e: "sint n smod sint k = sint n mod sint k"
    using assms by (simp add: signed_modulo_int_def sgn_if)
  have "0 \<le> sint n mod sint k" "sint n mod sint k < sint k" using assms by simp_all
  then show ?thesis using lt
    by (simp add: c_mod_def e sint_word_of_int_small)
qed

lemma uint_int_to_size_t: "0 \<le> sint x \<Longrightarrow> uint (int_to_size_t x) = sint x"
proof -
  assume h: "0 \<le> sint x"
  have lt: "sint x < 2 ^ 64" using sint_c_int_bounds[of x] by simp
  have "uint (word_of_int (sint x) :: size_t) = sint x mod 2 ^ 64"
    by (simp only: uint_word_of_int len_bit0 len_num1) simp
  also have "\<dots> = sint x" using h lt by (rule mod_pos_pos_trivial)
  finally show ?thesis by (simp only: int_to_size_t_def scast_eq)
qed

lemma unat_int_to_size_t: "0 \<le> sint x \<Longrightarrow> unat (int_to_size_t x) = nat (sint x)"
  using uint_int_to_size_t[of x] by (simp add: unat_eq_nat_uint del: nat_uint_eq)

lemma decode_written_length:
  assumes "0 < sint n"
  shows "sint (c_div n 4 * 3) = sint n div 4 * 3"
proof -
  have d: "sint (c_div n 4) = sint n div 4" using assms sint_c_div_pos[of n 4] by simp
  have "0 \<le> sint n div 4 * 3" using assms by simp
  moreover have "sint n div 4 * 3 < 2 ^ 31" using sint_c_int_bounds[of n] by (simp; (arith)?)
  ultimately show ?thesis
    by (simp add: sint_word_mult d signed_take_bit_int_eq_self)
qed


lemma ceil_div_3: "((k::int) div 3) * 4 + (if k mod 3 \<noteq> 0 then 4 else 0) = 4 * ((k + 2) div 3)"
proof -
  have k: "k = 3 * (k div 3) + k mod 3" by simp
  have r: "0 \<le> k mod 3" "k mod 3 < 3" by simp_all
  show ?thesis
  proof (cases "k mod 3 = 0")
    case True
    then have "(k + 2) div 3 = k div 3" by presburger
    then show ?thesis using True by simp
  next
    case False
    then have "(k + 2) div 3 = k div 3 + 1" by presburger
    then show ?thesis using False by simp
  qed
qed

lemma encode_bounds:
  assumes "0 < (k::int)" and "k \<le> 1610612733"
  shows "0 \<le> k div 3 * 4" and "k div 3 * 4 + (if k mod 3 \<noteq> 0 then 4 else 0) + 1 < 2 ^ 31"
proof -
  show "0 \<le> k div 3 * 4" using assms(1) by simp
  have "(k + 2) div 3 \<le> (1610612733 + 2) div 3"
    using assms(2) by (intro zdiv_mono1) simp_all
  then have "(k + 2) div 3 \<le> 536870911" by simp
  then have "4 * ((k + 2) div 3) + 1 < 2 ^ 31" by simp
  then show "k div 3 * 4 + (if k mod 3 \<noteq> 0 then 4 else 0) + 1 < 2 ^ 31"
    by (simp only: ceil_div_3)
qed

lemma encode_written_length:
  assumes "0 < sint n" and "sint n \<le> 1610612733"
  shows "sint (c_div n 3 * 4 + (if c_mod n 3 \<noteq> 0 then 4 else 0) + 1) = 4 * ((sint n + 2) div 3) + 1"
proof -
  let ?p = "if sint n mod 3 \<noteq> 0 then (4::int) else 0"
  have d: "sint (c_div n 3) = sint n div 3" using assms sint_c_div_pos[of n 3] by simp
  have m: "(c_mod n 3 \<noteq> 0) = (sint n mod 3 \<noteq> 0)"
    using assms sint_c_mod_pos[of n 3] by (simp add: c_int_eq_0_iff)
  have b0: "0 \<le> sint n div 3 * 4" using assms(1) by simp
  have b3: "sint n div 3 * 4 + ?p + 1 < 2 ^ 31" using assms by (rule encode_bounds(2))
  have p0: "0 \<le> ?p" by simp
  have b1: "sint n div 3 * 4 < 2 ^ 31" using b3 p0 by linarith
  have b2: "0 \<le> sint n div 3 * 4 + ?p" using b0 p0 by linarith
  have s1: "sint (c_div n 3 * 4) = sint n div 3 * 4"
    using b0 b1 by (simp add: sint_word_mult d signed_take_bit_int_eq_self)
  have sp: "sint (if c_mod n 3 \<noteq> 0 then 4 else 0 :: c_int) = ?p" by (simp add: m)
  have s2: "sint (c_div n 3 * 4 + (if c_mod n 3 \<noteq> 0 then 4 else 0)) = sint n div 3 * 4 + ?p"
    using b2 b3 by (simp only: sint_word_add s1 sp) (simp add: signed_take_bit_int_eq_self)
  have s3: "sint (c_div n 3 * 4 + (if c_mod n 3 \<noteq> 0 then 4 else 0) + 1) = sint n div 3 * 4 + ?p + 1"
    using b2 b3 by (simp only: sint_word_add[of _ 1] s2) (simp add: signed_take_bit_int_eq_self)
  show ?thesis using s3 by (simp only: ceil_div_3)
qed

section \<open>Properties of the block codec\<close>

lemma w_ok_iff: "w_ok t n = (t \<noteq> None \<and> unat n \<le> OBJECT_SIZE t)"
  by (simp add: w_ok_def OBJECT_SIZE_def split: option.splits)

lemma EVP_DecodeBlock_keeps_t: "EVP_DecodeBlock t f n nb = Done (r, t') \<Longrightarrow> t' = t"
  by (auto simp: EVP_DecodeBlock_def Let_def split: if_splits)

lemma EVP_EncodeBlock_keeps_t: "EVP_EncodeBlock t f n nb = Done (r, t') \<Longrightarrow> t' = t"
  by (auto simp: EVP_EncodeBlock_def Let_def split: if_splits)

lemma EVP_DecodeBlock_success_path:
  assumes "0 < sint m"
  shows "EVP_DecodeBlock t f m False =
      (if sint m mod 4 = 0 \<and> r_ok f (int_to_size_t m)
          \<and> t \<noteq> None \<and> nat (3 * sint m div 4) \<le> OBJECT_SIZE t
       then Done (m, t) else Violation)"
proof -
  have nz: "m \<noteq> 0" using assms by auto
  have md: "(c_mod m 4 = 0) = (sint m mod 4 = 0)"
    using assms sint_c_mod_pos[of m 4] by (simp add: c_int_eq_0_iff)
  have unf: "EVP_DecodeBlock t f m False =
      (if sint m mod 4 \<noteq> 0 then Violation
       else if \<not> r_ok f (int_to_size_t m) then Violation
       else if \<not> w_ok t (int_to_size_t (c_div m 4 * 3)) then Violation
       else Done (m, t))"
    using nz by (simp add: EVP_DecodeBlock_def Let_def md)
  have wl: "sint (c_div m 4 * 3) = sint m div 4 * 3"
    using assms by (simp add: decode_written_length)
  have "0 \<le> sint (c_div m 4 * 3)" using assms wl by simp
  then have un: "unat (int_to_size_t (c_div m 4 * 3)) = nat (sint m div 4 * 3)"
    using wl by (simp add: unat_int_to_size_t)
  show ?thesis
  proof (cases "sint m mod 4 = 0")
    case True
    then have "sint m div 4 * 3 = 3 * sint m div 4" by presburger
    then have "w_ok t (int_to_size_t (c_div m 4 * 3)) =
        (t \<noteq> None \<and> nat (3 * sint m div 4) \<le> OBJECT_SIZE t)"
      using un by (simp only: w_ok_iff)
    then show ?thesis using True by (simp only: unf) simp
  next
    case False
    then show ?thesis by (simp only: unf) simp
  qed
qed

lemma EVP_EncodeBlock_success_path:
  assumes "0 < sint m" and "sint m \<le> 1610612733"
  shows "EVP_EncodeBlock t f m False =
      (if r_ok f (int_to_size_t m)
          \<and> t \<noteq> None \<and> nat (4 * ((sint m + 2) div 3) + 1) \<le> OBJECT_SIZE t
       then Done (word_of_int (4 * ((sint m + 2) div 3)), t) else Violation)"
proof -
  define W where "W = c_div m 3 * 4 + (if c_mod m 3 \<noteq> 0 then 4 else 0) + 1"
  let ?c = "4 * ((sint m + 2) div 3)"
  have nz: "m \<noteq> 0" using assms by auto
  have unfold: "EVP_EncodeBlock t f m False =
      (if \<not> w_ok t 1 then Violation
       else if \<not> r_ok f (int_to_size_t m) then Violation
       else if \<not> w_ok t (int_to_size_t W) then Violation else Done (W - 1, t))"
    unfolding W_def using nz by (simp add: EVP_EncodeBlock_def Let_def)
  have wl: "sint W = ?c + 1" unfolding W_def using assms by (rule encode_written_length)
  have c0: "0 \<le> ?c" using assms by simp
  have c1: "?c + 1 < 2 ^ 31"
    using encode_bounds(2)[OF assms] by (simp only: ceil_div_3)
  have un: "unat (int_to_size_t W) = nat (?c + 1)"
    using c0 wl unat_int_to_size_t[of W] by simp
  have lo: "- (2 ^ 31) \<le> ?c" using c0 by simp
  have hi: "?c < 2 ^ 31" using c1 by simp
  have "sint (W - 1) = ?c"
    using c0 c1 by (simp only: sint_word_diff wl) (simp add: signed_take_bit_int_eq_self)
  moreover have "sint (word_of_int ?c :: c_int) = ?c"
    by (rule sint_word_of_int_small[OF lo hi])
  ultimately have ret: "W - 1 = word_of_int ?c"
    by (simp add: word_eq_iff_signed[where 'a=int])
  have big: "w_ok t (int_to_size_t W) = (t \<noteq> None \<and> nat (?c + 1) \<le> OBJECT_SIZE t)"
    by (simp only: w_ok_iff un)
  have one: "t \<noteq> None \<and> nat (?c + 1) \<le> OBJECT_SIZE t \<Longrightarrow> w_ok t 1"
    using c0 by (auto simp: w_ok_iff)
  show ?thesis
  proof (cases "t \<noteq> None \<and> nat (?c + 1) \<le> OBJECT_SIZE t")
    case True
    then show ?thesis using one by (simp only: unfold big ret) simp
  next
    case False
    then show ?thesis by (simp only: unfold big) simp
  qed
qed

text \<open>
  C6, as stated, fails: on its success path \<^verbatim>\<open>EVP_DecodeBlock\<close> writes no byte to \<open>t\<close>.
  For \<open>n = 8\<close> and the same input, a buffer of six zero bytes is six zero bytes after the
  call and a buffer of six bytes 255 is six bytes 255 after the call, with return value 8
  both times.
\<close>

theorem EVP_DecodeBlock_stores_nothing_counterexample:
  "EVP_DecodeBlock (Some zeros6) (Some zeros16) 8 False = Done (8, Some zeros6)
   \<and> EVP_DecodeBlock (Some ones6) (Some zeros16) 8 False = Done (8, Some ones6)
   \<and> zeros6 \<noteq> ones6"
  by (simp add: EVP_DecodeBlock_def c_mod_def c_div_def signed_modulo_int_def
      signed_divide_int_def r_ok_def w_ok_def int_to_size_t_def zeros6_def ones6_def zeros16_def)

text \<open>
  C6, amended. \<^verbatim>\<open>EVP_DecodeBlock(t, f, n)\<close> returns 0 at once for \<open>n = 0\<close>, and for
  \<open>n \<noteq> 0\<close> it may return \<open>-1\<close>, both whatever \<open>t\<close> and \<open>f\<close> are. For \<open>n > 0\<close> the path that
  does not fail returns \<open>n\<close> exactly when \<open>n\<close> is a multiple of 4, \<open>f\<close> is readable for
  \<open>n\<close> bytes and \<open>t\<close> is writable for \<open>3 * n / 4\<close> bytes (6 bytes for \<open>n = 8\<close>, with return
  value 8); otherwise an assertion fails. So for \<open>n > 0\<close> not a multiple of 4 the only
  outcomes are the failed assertion and \<open>-1\<close>. Every return leaves the object at \<open>t\<close> as
  it was: the call requires room in \<open>t\<close> and stores nothing there.
\<close>

theorem EVP_DecodeBlock_contract:
  "EVP_DecodeBlock t f 0 nb = Done (0, t)
   \<and> (n \<noteq> 0 \<longrightarrow> EVP_DecodeBlock t f n True = Done (- 1, t))
   \<and> (0 < sint n \<and> sint n mod 4 \<noteq> 0 \<longrightarrow>
        EVP_DecodeBlock t f n nb = (if nb then Done (- 1, t) else Violation))
   \<and> (0 < sint n \<longrightarrow>
        EVP_DecodeBlock t f n False =
          (if sint n mod 4 = 0 \<and> r_ok f (int_to_size_t n)
              \<and> t \<noteq> None \<and> nat (3 * sint n div 4) \<le> OBJECT_SIZE t
           then Done (n, t) else Violation))
   \<and> EVP_DecodeBlock t f 8 False =
          (if r_ok f (int_to_size_t 8) \<and> t \<noteq> None \<and> 6 \<le> OBJECT_SIZE t
           then Done (8, t) else Violation)
   \<and> (\<forall>r t'. EVP_DecodeBlock t f n nb = Done (r, t') \<longrightarrow> t' = t)"
proof (intro conjI impI allI)
  show "EVP_DecodeBlock t f 0 nb = Done (0, t)"
    by (simp add: EVP_DecodeBlock_def)
next
  assume "n \<noteq> 0"
  then show "EVP_DecodeBlock t f n True = Done (- 1, t)"
    by (simp add: EVP_DecodeBlock_def)
next
  assume a: "0 < sint n \<and> sint n mod 4 \<noteq> 0"
  show "EVP_DecodeBlock t f n nb = (if nb then Done (- 1, t) else Violation)"
  proof (cases nb)
    case True
    have "n \<noteq> 0" using a by auto
    then show ?thesis using True by (simp add: EVP_DecodeBlock_def)
  next
    case False
    then show ?thesis using a EVP_DecodeBlock_success_path[of n t f] by simp
  qed
next
  assume "0 < sint n"
  then show "EVP_DecodeBlock t f n False =
          (if sint n mod 4 = 0 \<and> r_ok f (int_to_size_t n)
              \<and> t \<noteq> None \<and> nat (3 * sint n div 4) \<le> OBJECT_SIZE t
           then Done (n, t) else Violation)"
    by (rule EVP_DecodeBlock_success_path)
next
  show "EVP_DecodeBlock t f 8 False =
          (if r_ok f (int_to_size_t 8) \<and> t \<noteq> None \<and> 6 \<le> OBJECT_SIZE t
           then Done (8, t) else Violation)"
    using EVP_DecodeBlock_success_path[of 8 t f] by simp
next
  fix r t' assume "EVP_DecodeBlock t f n nb = Done (r, t')"
  then show "t' = t" by (rule EVP_DecodeBlock_keeps_t)
qed

theorem EVP_DecodeBlock_contract_witness:
  "(8::c_int) \<noteq> 0 \<and> 0 < sint (8::c_int) \<and> sint (8::c_int) mod 4 = 0
   \<and> r_ok (Some zeros16) (int_to_size_t 8)
   \<and> EVP_DecodeBlock (Some zeros6) (Some zeros16) 8 True = Done (- 1, Some zeros6)
   \<and> EVP_DecodeBlock (Some zeros6) (Some zeros16) 8 False = Done (8, Some zeros6)
   \<and> EVP_DecodeBlock (Some ones5) (Some zeros16) 8 False = Violation
   \<and> EVP_DecodeBlock (Some zeros6) (Some ones5) 8 False = Violation
   \<and> 0 < sint (5::c_int) \<and> sint (5::c_int) mod 4 \<noteq> 0
   \<and> EVP_DecodeBlock (Some zeros6) (Some zeros16) 5 False = Violation
   \<and> EVP_DecodeBlock (Some zeros6) (Some zeros16) 5 True = Done (- 1, Some zeros6)"
  using EVP_DecodeBlock_contract[of "Some zeros6" "Some zeros16" False 8]
    EVP_DecodeBlock_contract[of "Some zeros6" "Some zeros16" True 8]
    EVP_DecodeBlock_contract[of "Some ones5" "Some zeros16" False 8]
    EVP_DecodeBlock_contract[of "Some zeros6" "Some ones5" False 8]
    EVP_DecodeBlock_contract[of "Some zeros6" "Some zeros16" False 5]
    EVP_DecodeBlock_contract[of "Some zeros6" "Some zeros16" True 5]
  by (simp add: r_ok_def OBJECT_SIZE_def int_to_size_t_def zeros6_def ones5_def zeros16_def)

text \<open>
  C7, as stated, fails: on its success path \<^verbatim>\<open>EVP_EncodeBlock\<close> writes no byte to \<open>t\<close>,
  not even the terminator. For \<open>n = 3\<close> a buffer of five bytes 255 is five bytes 255 after
  the call, with return value 4: its last byte is not a terminator.
\<close>

theorem EVP_EncodeBlock_stores_nothing_counterexample:
  "EVP_EncodeBlock (Some ones5) (Some zeros16) 3 False = Done (4, Some ones5)
   \<and> ones5 ! 4 \<noteq> 0"
  by (simp add: EVP_EncodeBlock_def c_mod_def c_div_def signed_modulo_int_def
      signed_divide_int_def r_ok_def w_ok_def int_to_size_t_def ones5_def zeros16_def)

text \<open>
  C7, amended. \<^verbatim>\<open>EVP_EncodeBlock(t, f, n)\<close> always requires \<open>t\<close> to be writable for one
  byte, the room of the terminator. With that, \<open>n = 0\<close> returns 0 and \<open>n \<noteq> 0\<close> may return
  \<open>-1\<close>. For \<open>0 < n \<le> 1610612733\<close> the path that does not fail returns
  \<open>4 * ceil(n / 3)\<close> exactly when \<open>f\<close> is readable for \<open>n\<close> bytes and \<open>t\<close> is writable for
  \<open>4 * ceil(n / 3) + 1\<close> bytes, the room of the data and the terminator (5 bytes and
  return value 4 for \<open>n = 3\<close>, 9 bytes and return value 8 for \<open>n = 4\<close>); otherwise an
  assertion fails. Every return leaves the object at \<open>t\<close> as it was: the call requires
  room in \<open>t\<close> and stores nothing there. Above the bound on \<open>n\<close> the \<^verbatim>\<open>int\<close> expression
  for \<^verbatim>\<open>written_length\<close> overflows; nothing is stated there.
\<close>

theorem EVP_EncodeBlock_contract:
  "(\<not> w_ok t 1 \<longrightarrow> EVP_EncodeBlock t f n nb = Violation)
   \<and> (w_ok t 1 \<longrightarrow> EVP_EncodeBlock t f 0 nb = Done (0, t))
   \<and> (w_ok t 1 \<and> n \<noteq> 0 \<longrightarrow> EVP_EncodeBlock t f n True = Done (- 1, t))
   \<and> (0 < sint n \<and> sint n \<le> 1610612733 \<longrightarrow>
        EVP_EncodeBlock t f n False =
          (if r_ok f (int_to_size_t n)
              \<and> t \<noteq> None \<and> nat (4 * ((sint n + 2) div 3) + 1) \<le> OBJECT_SIZE t
           then Done (word_of_int (4 * ((sint n + 2) div 3)), t) else Violation))
   \<and> EVP_EncodeBlock t f 3 False =
          (if r_ok f (int_to_size_t 3) \<and> t \<noteq> None \<and> 5 \<le> OBJECT_SIZE t
           then Done (4, t) else Violation)
   \<and> EVP_EncodeBlock t f 4 False =
          (if r_ok f (int_to_size_t 4) \<and> t \<noteq> None \<and> 9 \<le> OBJECT_SIZE t
           then Done (8, t) else Violation)
   \<and> (\<forall>r t'. EVP_EncodeBlock t f n nb = Done (r, t') \<longrightarrow> t' = t)"
proof (intro conjI impI allI)
  assume "\<not> w_ok t 1"
  then show "EVP_EncodeBlock t f n nb = Violation"
    by (simp add: EVP_EncodeBlock_def)
next
  assume "w_ok t 1"
  then show "EVP_EncodeBlock t f 0 nb = Done (0, t)"
    by (simp add: EVP_EncodeBlock_def)
next
  assume "w_ok t 1 \<and> n \<noteq> 0"
  then show "EVP_EncodeBlock t f n True = Done (- 1, t)"
    by (simp add: EVP_EncodeBlock_def)
next
  assume "0 < sint n \<and> sint n \<le> 1610612733"
  then show "EVP_EncodeBlock t f n False =
          (if r_ok f (int_to_size_t n)
              \<and> t \<noteq> None \<and> nat (4 * ((sint n + 2) div 3) + 1) \<le> OBJECT_SIZE t
           then Done (word_of_int (4 * ((sint n + 2) div 3)), t) else Violation)"
    using EVP_EncodeBlock_success_path[of n t f] by simp
next
  show "EVP_EncodeBlock t f 3 False =
          (if r_ok f (int_to_size_t 3) \<and> t \<noteq> None \<and> 5 \<le> OBJECT_SIZE t
           then Done (4, t) else Violation)"
    using EVP_EncodeBlock_success_path[of 3 t f] by simp
next
  show "EVP_EncodeBlock t f 4 False =
          (if r_ok f (int_to_size_t 4) \<and> t \<noteq> None \<and> 9 \<le> OBJECT_SIZE t
           then Done (8, t) else Violation)"
    using EVP_EncodeBlock_success_path[of 4 t f] by simp
next
  fix r t' assume "EVP_EncodeBlock t f n nb = Done (r, t')"
  then show "t' = t" by (rule EVP_EncodeBlock_keeps_t)
qed

theorem EVP_EncodeBlock_contract_witness:
  "\<not> w_ok None 1 \<and> EVP_EncodeBlock None (Some zeros16) 3 False = Violation
   \<and> w_ok (Some ones5) 1
   \<and> EVP_EncodeBlock (Some ones5) (Some zeros16) 0 False = Done (0, Some ones5)
   \<and> (3::c_int) \<noteq> 0 \<and> 0 < sint (3::c_int) \<and> sint (3::c_int) \<le> 1610612733
   \<and> r_ok (Some zeros16) (int_to_size_t 3)
   \<and> EVP_EncodeBlock (Some ones5) (Some zeros16) 3 True = Done (- 1, Some ones5)
   \<and> EVP_EncodeBlock (Some ones5) (Some zeros16) 3 False = Done (4, Some ones5)
   \<and> EVP_EncodeBlock (Some ones5) (Some [0, 0]) 3 False = Violation
   \<and> EVP_EncodeBlock (Some (replicate 9 0)) (Some zeros16) 4 False = Done (8, Some (replicate 9 0))
   \<and> EVP_EncodeBlock (Some (replicate 8 0)) (Some zeros16) 4 False = Violation"
  using EVP_EncodeBlock_contract[of None "Some zeros16" 3 False]
    EVP_EncodeBlock_contract[of "Some ones5" "Some zeros16" 3 False]
    EVP_EncodeBlock_contract[of "Some ones5" "Some zeros16" 3 True]
    EVP_EncodeBlock_contract[of "Some ones5" "Some [0, 0]" 3 False]
    EVP_EncodeBlock_contract[of "Some (replicate 9 0)" "Some zeros16" 4 False]
    EVP_EncodeBlock_contract[of "Some (replicate 8 0)" "Some zeros16" 4 False]
  by (simp add: r_ok_def w_ok_def OBJECT_SIZE_def int_to_size_t_def zeros6_def ones5_def
      zeros16_def)

section \<open>Reference counting of keys\<close>

lemma sint_minus_1: "0 < sint (r::c_int) \<Longrightarrow> sint (r - 1) = sint r - 1"
proof -
  assume h: "0 < sint r"
  have "sint r < 2 ^ 31" using sint_c_int_bounds[of r] by simp
  then show ?thesis using h
    by (simp only: sint_word_diff) (simp add: signed_take_bit_int_eq_self)
qed

lemma sint_plus_1: "0 < sint (r::c_int) \<Longrightarrow> sint r < 2 ^ 31 - 1 \<Longrightarrow> sint (r + 1) = sint r + 1"
  by (simp only: sint_word_add) (simp add: signed_take_bit_int_eq_self)

lemma minus_1_eq_0_iff: "0 < sint (r::c_int) \<Longrightarrow> (r - 1 = 0) = (sint r = 1)"
  using sint_minus_1[of r] by (simp add: c_int_eq_0_iff)

lemma bind_outcome_Done: "bind_outcome (Done x) f = f x"
  by (simp add: bind_outcome_def)

lemma EVP_PKEY_free_positive:
  assumes "pkeys h a = Some k" and "0 < sint (references k)"
  shows "EVP_PKEY_free (Some a) h =
    Done (if sint (references k) = 1
          then h\<lparr>pkeys := (pkeys h)(a := None), freed := freed h @ [a],
                 EC_KEY_freed := EC_KEY_freed h @ [ec_key k]\<rparr>
          else h\<lparr>pkeys := (pkeys h)(a \<mapsto> k\<lparr>references := references k - 1\<rparr>)\<rparr>)"
proof -
  have pos: "0 <s references k" using assms(2) by (simp add: word_sless_alt)
  show ?thesis using assms(1) pos minus_1_eq_0_iff[OF assms(2)]
    by (simp add: EVP_PKEY_free_def Let_def)
qed

lemma EVP_PKEY_free_nonpositive:
  assumes "pkeys h a = Some k" and "sint (references k) \<le> 0"
  shows "EVP_PKEY_free (Some a) h = Done h"
proof -
  have "\<not> 0 <s references k" using assms(2) by (simp add: word_sless_alt)
  then show ?thesis using assms(1) by (simp add: EVP_PKEY_free_def)
qed

lemma EVP_PKEY_free_times_partial:
  "pkeys h a = Some k \<Longrightarrow> int j < sint (references k) \<Longrightarrow>
   EVP_PKEY_free_times j (Some a) h =
     Done (h\<lparr>pkeys := (pkeys h)(a \<mapsto> k\<lparr>references := references k - of_nat j\<rparr>)\<rparr>)"
proof (induction j arbitrary: h k)
  case 0
  have "h\<lparr>pkeys := (pkeys h)(a \<mapsto> k\<lparr>references := references k - of_nat 0\<rparr>)\<rparr> = h"
    using 0(1) by (intro key_heap.equality) (simp_all add: fun_upd_idem)
  then show ?case by (simp only: EVP_PKEY_free_times.simps)
next
  case (Suc j)
  let ?k' = "k\<lparr>references := references k - 1\<rparr>"
  let ?h' = "h\<lparr>pkeys := (pkeys h)(a \<mapsto> ?k')\<rparr>"
  have pos: "0 < sint (references k)" and ne1: "sint (references k) \<noteq> 1" using Suc.prems(2) by auto
  have step: "EVP_PKEY_free (Some a) h = Done ?h'"
    using EVP_PKEY_free_positive[OF Suc.prems(1) pos] ne1 by simp
  have p: "pkeys ?h' a = Some ?k'" by simp
  have l: "int j < sint (references ?k')" using Suc.prems(2) sint_minus_1[OF pos] by simp
  have "EVP_PKEY_free_times (Suc j) (Some a) h = EVP_PKEY_free_times j (Some a) ?h'"
    by (simp only: EVP_PKEY_free_times.simps step bind_outcome_Done)
  also have "\<dots> = Done (?h'\<lparr>pkeys := (pkeys ?h')(a \<mapsto> ?k'\<lparr>references := references ?k' - of_nat j\<rparr>)\<rparr>)"
    using p l by (rule Suc.IH)
  also have "?h'\<lparr>pkeys := (pkeys ?h')(a \<mapsto> ?k'\<lparr>references := references ?k' - of_nat j\<rparr>)\<rparr>
      = h\<lparr>pkeys := (pkeys h)(a \<mapsto> k\<lparr>references := references k - of_nat (Suc j)\<rparr>)\<rparr>"
    by (intro key_heap.equality) (simp_all add: algebra_simps)
  finally show ?case .
qed

lemma EVP_PKEY_free_times_all:
  "pkeys h a = Some k \<Longrightarrow> sint (references k) = int (Suc n) \<Longrightarrow>
   EVP_PKEY_free_times (Suc n) (Some a) h =
     Done (h\<lparr>pkeys := (pkeys h)(a := None), freed := freed h @ [a],
             EC_KEY_freed := EC_KEY_freed h @ [ec_key k]\<rparr>)"
proof (induction n arbitrary: h k)
  case 0
  have "EVP_PKEY_free (Some a) h = Done (h\<lparr>pkeys := (pkeys h)(a := None), freed := freed h @ [a],
             EC_KEY_freed := EC_KEY_freed h @ [ec_key k]\<rparr>)"
    using EVP_PKEY_free_positive[of h a k] 0 by simp
  then show ?case by (simp only: EVP_PKEY_free_times.simps bind_outcome_Done)
next
  case (Suc n)
  let ?k' = "k\<lparr>references := references k - 1\<rparr>"
  let ?h' = "h\<lparr>pkeys := (pkeys h)(a \<mapsto> ?k')\<rparr>"
  have pos: "0 < sint (references k)" and ne1: "sint (references k) \<noteq> 1" using Suc.prems(2) by auto
  have step: "EVP_PKEY_free (Some a) h = Done ?h'"
    using EVP_PKEY_free_positive[OF Suc.prems(1) pos] ne1 by simp
  have p: "pkeys ?h' a = Some ?k'" by simp
  have l: "sint (references ?k') = int (Suc n)" using Suc.prems(2) sint_minus_1[OF pos] by simp
  have "EVP_PKEY_free_times (Suc (Suc n)) (Some a) h = EVP_PKEY_free_times (Suc n) (Some a) ?h'"
    by (simp only: EVP_PKEY_free_times.simps step bind_outcome_Done)
  also have "\<dots> = Done (?h'\<lparr>pkeys := (pkeys ?h')(a := None), freed := freed ?h' @ [a],
             EC_KEY_freed := EC_KEY_freed ?h' @ [ec_key ?k']\<rparr>)"
    using p l by (rule Suc.IH)
  also have "?h'\<lparr>pkeys := (pkeys ?h')(a := None), freed := freed ?h' @ [a],
             EC_KEY_freed := EC_KEY_freed ?h' @ [ec_key ?k']\<rparr>
      = h\<lparr>pkeys := (pkeys h)(a := None), freed := freed h @ [a],
             EC_KEY_freed := EC_KEY_freed h @ [ec_key k]\<rparr>"
    by (intro key_heap.equality) simp_all
  finally show ?case .
qed

lemma EVP_PKEY_CTX_new_increments:
  assumes "pkeys h a = Some k" and "evp_pkey_is_valid ok h (Some a)"
  shows "EVP_PKEY_CTX_new ok (Some a) None h True pad =
    Done (Some \<lparr>is_initialized_for_signing = False, is_initialized_for_derivation = False,
                 is_initialized_for_encryption = False, is_initialized_for_decryption = False,
                 pkey = Some a, rsa_pad = pad\<rparr>,
          h\<lparr>pkeys := (pkeys h)(a \<mapsto> k\<lparr>references := references k + 1\<rparr>)\<rparr>)"
  using assms by (simp add: EVP_PKEY_CTX_new_def)

lemma EVP_PKEY_CTX_new_times_increments:
  "pkeys h a = Some k \<Longrightarrow> evp_pkey_is_valid ok h (Some a) \<Longrightarrow>
   sint (references k) + int n < 2 ^ 31 \<Longrightarrow>
   EVP_PKEY_CTX_new_times ok n (Some a) h =
     Done (h\<lparr>pkeys := (pkeys h)(a \<mapsto> k\<lparr>references := references k + of_nat n\<rparr>)\<rparr>)"
proof (induction n arbitrary: h k)
  case 0
  have "h\<lparr>pkeys := (pkeys h)(a \<mapsto> k\<lparr>references := references k + of_nat 0\<rparr>)\<rparr> = h"
    using 0(1) by (intro key_heap.equality) (simp_all add: fun_upd_idem)
  then show ?case by (simp only: EVP_PKEY_CTX_new_times.simps)
next
  case (Suc n)
  let ?k' = "k\<lparr>references := references k + 1\<rparr>"
  let ?h' = "h\<lparr>pkeys := (pkeys h)(a \<mapsto> ?k')\<rparr>"
  have pos: "0 < sint (references k)"
    using Suc.prems(1,2) by (simp add: evp_pkey_is_valid_def word_sless_alt)
  have s1: "sint (references k + 1) = sint (references k) + 1"
    using pos Suc.prems(3) by (intro sint_plus_1) simp_all
  have v: "evp_pkey_is_valid ok ?h' (Some a)"
    using Suc.prems(1,2) pos s1 by (simp add: evp_pkey_is_valid_def word_sless_alt)
  have p: "pkeys ?h' a = Some ?k'" by simp
  have l: "sint (references ?k') + int n < 2 ^ 31" using s1 Suc.prems(3) by simp
  have "EVP_PKEY_CTX_new_times ok (Suc n) (Some a) h = EVP_PKEY_CTX_new_times ok n (Some a) ?h'"
    by (simp only: EVP_PKEY_CTX_new_times.simps bind_outcome_Done snd_conv
          EVP_PKEY_CTX_new_increments[OF Suc.prems(1,2), of 0])
  also have "\<dots> = Done (?h'\<lparr>pkeys := (pkeys ?h')(a \<mapsto> ?k'\<lparr>references := references ?k' + of_nat n\<rparr>)\<rparr>)"
    using p v l by (rule Suc.IH)
  also have "?h'\<lparr>pkeys := (pkeys ?h')(a \<mapsto> ?k'\<lparr>references := references ?k' + of_nat n\<rparr>)\<rparr>
      = h\<lparr>pkeys := (pkeys h)(a \<mapsto> k\<lparr>references := references k + of_nat (Suc n)\<rparr>)\<rparr>"
    by (intro key_heap.equality) (simp_all add: algebra_simps)
  finally show ?case .
qed

lemma sint_of_nat_small: "int n < 2 ^ 31 \<Longrightarrow> sint (of_nat n :: c_int) = int n"
proof -
  assume h: "int n < 2 ^ 31"
  have "(of_nat n :: c_int) = word_of_int (int n)" by simp
  moreover have "sint (word_of_int (int n) :: c_int) = int n"
    using h by (intro sint_word_of_int_small) simp_all
  ultimately show ?thesis by (simp only:)
qed

lemma create_attach_release:
  assumes "pkeys h a = None" and "int m + 1 < 2 ^ 31"
  shows "bind_outcome (EVP_PKEY_new h (Some a))
           (\<lambda>r. bind_outcome (EVP_PKEY_CTX_new_times ok m (fst r) (snd r))
                  (EVP_PKEY_free_times (Suc m) (fst r)))
         = Done (h\<lparr>pkeys := (pkeys h)(a := None), freed := freed h @ [a],
                   EC_KEY_freed := EC_KEY_freed h @ [None]\<rparr>)"
    and "bind_outcome (EVP_PKEY_new h (Some a))
           (\<lambda>r. bind_outcome (EVP_PKEY_CTX_new_times ok m (fst r) (snd r))
                  (EVP_PKEY_free_times m (fst r)))
         = Done (h\<lparr>pkeys := (pkeys h)(a \<mapsto> \<lparr>references = 1, ec_key = None\<rparr>)\<rparr>)"
proof -
  let ?k1 = "\<lparr>references = 1, ec_key = None\<rparr>"
  let ?h1 = "h\<lparr>pkeys := (pkeys h)(a \<mapsto> ?k1)\<rparr>"
  let ?k2 = "?k1\<lparr>references := references ?k1 + of_nat m\<rparr>"
  let ?h2 = "?h1\<lparr>pkeys := (pkeys ?h1)(a \<mapsto> ?k2)\<rparr>"
  have new: "EVP_PKEY_new h (Some a) = Done (Some a, ?h1)"
    using assms(1) by (simp add: EVP_PKEY_new_def)
  have p1: "pkeys ?h1 a = Some ?k1" by simp
  have v1: "evp_pkey_is_valid ok ?h1 (Some a)"
    by (simp add: evp_pkey_is_valid_def word_sless_alt)
  have b1: "sint (references ?k1) + int m < 2 ^ 31" using assms(2) by simp
  have att: "EVP_PKEY_CTX_new_times ok m (Some a) ?h1 = Done ?h2"
    using p1 v1 b1 by (rule EVP_PKEY_CTX_new_times_increments)
  have p2: "pkeys ?h2 a = Some ?k2" by simp
  have "references ?k2 = of_nat (Suc m)" by simp
  then have r2: "sint (references ?k2) = int (Suc m)"
    using assms(2) sint_of_nat_small[of "Suc m"] by simp
  have rel: "EVP_PKEY_free_times (Suc m) (Some a) ?h2 =
      Done (?h2\<lparr>pkeys := (pkeys ?h2)(a := None), freed := freed ?h2 @ [a],
             EC_KEY_freed := EC_KEY_freed ?h2 @ [ec_key ?k2]\<rparr>)"
    using p2 r2 by (rule EVP_PKEY_free_times_all)
  have e: "?h2\<lparr>pkeys := (pkeys ?h2)(a := None), freed := freed ?h2 @ [a],
             EC_KEY_freed := EC_KEY_freed ?h2 @ [ec_key ?k2]\<rparr>
      = h\<lparr>pkeys := (pkeys h)(a := None), freed := freed h @ [a],
                   EC_KEY_freed := EC_KEY_freed h @ [None]\<rparr>"
    by (intro key_heap.equality) simp_all
  show "bind_outcome (EVP_PKEY_new h (Some a))
           (\<lambda>r. bind_outcome (EVP_PKEY_CTX_new_times ok m (fst r) (snd r))
                  (EVP_PKEY_free_times (Suc m) (fst r)))
         = Done (h\<lparr>pkeys := (pkeys h)(a := None), freed := freed h @ [a],
                   EC_KEY_freed := EC_KEY_freed h @ [None]\<rparr>)"
    by (simp only: new bind_outcome_Done fst_conv snd_conv att rel e)
  have l: "int m < sint (references ?k2)" using r2 by simp
  have rel': "EVP_PKEY_free_times m (Some a) ?h2 =
      Done (?h2\<lparr>pkeys := (pkeys ?h2)(a \<mapsto> ?k2\<lparr>references := references ?k2 - of_nat m\<rparr>)\<rparr>)"
    using p2 l by (rule EVP_PKEY_free_times_partial)
  have e': "?h2\<lparr>pkeys := (pkeys ?h2)(a \<mapsto> ?k2\<lparr>references := references ?k2 - of_nat m\<rparr>)\<rparr>
      = h\<lparr>pkeys := (pkeys h)(a \<mapsto> \<lparr>references = 1, ec_key = None\<rparr>)\<rparr>"
    by (intro key_heap.equality) simp_all
  show "bind_outcome (EVP_PKEY_new h (Some a))
           (\<lambda>r. bind_outcome (EVP_PKEY_CTX_new_times ok m (fst r) (snd r))
                  (EVP_PKEY_free_times m (fst r)))
         = Done (h\<lparr>pkeys := (pkeys h)(a \<mapsto> \<lparr>references = 1, ec_key = None\<rparr>)\<rparr>)"
    by (simp only: new bind_outcome_Done fst_conv snd_conv att rel' e')
qed

text \<open>
  C10. \<^verbatim>\<open>EVP_PKEY_free\<close> on a key whose reference count is zero or negative returns with
  the heap as it was: the count is not decremented, the key is not freed and
  \<^verbatim>\<open>EC_KEY_free\<close> is not called.
\<close>

theorem EVP_PKEY_free_nonpositive_unchanged:
  "pkeys h a = Some k \<Longrightarrow> sint (references k) \<le> 0 \<Longrightarrow>
   EVP_PKEY_free (Some a) h = Done h"
  by (rule EVP_PKEY_free_nonpositive)

theorem EVP_PKEY_free_nonpositive_unchanged_witness:
  "pkeys (example_key_heap (- 3)) 7 = Some \<lparr>references = - 3, ec_key = None\<rparr>
   \<and> sint (- 3 :: c_int) \<le> 0
   \<and> EVP_PKEY_free (Some 7) (example_key_heap (- 3)) = Done (example_key_heap (- 3))"
  using EVP_PKEY_free_nonpositive_unchanged[of "example_key_heap (- 3)" 7 "\<lparr>references = - 3, ec_key = None\<rparr>"]
  by (simp add: example_key_heap_def)

text \<open>
  C5, as stated, fails where the count is not positive: \<^verbatim>\<open>EVP_PKEY_free\<close> on a key with
  count 0 leaves the count at 0, it does not decrement it.
\<close>

theorem EVP_PKEY_free_zero_count_counterexample:
  "EVP_PKEY_free (Some 7) (example_key_heap 0) = Done (example_key_heap 0)
   \<and> evp_pkey_get_reference_count (example_key_heap 0) (Some 7) = Done 0
   \<and> evp_pkey_get_reference_count (example_key_heap 0) (Some 7) \<noteq> Done (0 - 1)"
  by (simp add: EVP_PKEY_free_def evp_pkey_get_reference_count_def example_key_heap_def)

text \<open>
  C5, amended. A successful \<^verbatim>\<open>EVP_PKEY_CTX_new\<close> on a valid key raises the count by one
  (below the largest \<^verbatim>\<open>int\<close>). \<^verbatim>\<open>EVP_PKEY_free\<close> on a key with a positive count lowers
  the count by one; exactly when the count reaches zero it calls \<^verbatim>\<open>EC_KEY_free\<close> on the key
  material and frees the key. Hence a key whose count is \<open>N > 0\<close> is destroyed exactly once by
  \<open>N\<close> releases, by the last one, and is alive with count \<open>N - j\<close> after \<open>j < N\<close> of them.
  A key created by \<^verbatim>\<open>EVP_PKEY_new\<close> and bound \<open>m\<close> times holds \<open>m + 1\<close> references, the
  creating one included: \<open>m + 1\<close> releases destroy it exactly once, \<open>m\<close> releases leave it
  alive with count 1.
\<close>

theorem EVP_PKEY_reference_counting:
  "(pkeys h a = Some k \<and> evp_pkey_is_valid ok h (Some a) \<and> sint (references k) < 2 ^ 31 - 1 \<longrightarrow>
      EVP_PKEY_CTX_new ok (Some a) None h True pad =
        Done (Some \<lparr>is_initialized_for_signing = False, is_initialized_for_derivation = False,
                     is_initialized_for_encryption = False, is_initialized_for_decryption = False,
                     pkey = Some a, rsa_pad = pad\<rparr>,
              h\<lparr>pkeys := (pkeys h)(a \<mapsto> k\<lparr>references := references k + 1\<rparr>)\<rparr>)
      \<and> sint (references k + 1) = sint (references k) + 1)
   \<and> (pkeys h a = Some k \<and> 0 < sint (references k) \<longrightarrow>
      EVP_PKEY_free (Some a) h =
        Done (if sint (references k) - 1 = 0
              then h\<lparr>pkeys := (pkeys h)(a := None), freed := freed h @ [a],
                     EC_KEY_freed := EC_KEY_freed h @ [ec_key k]\<rparr>
              else h\<lparr>pkeys := (pkeys h)(a \<mapsto> k\<lparr>references := references k - 1\<rparr>)\<rparr>)
      \<and> sint (references k - 1) = sint (references k) - 1)
   \<and> (pkeys h a = Some k \<and> sint (references k) = int N \<and> 0 < N \<longrightarrow>
      EVP_PKEY_free_times N (Some a) h =
        Done (h\<lparr>pkeys := (pkeys h)(a := None), freed := freed h @ [a],
                EC_KEY_freed := EC_KEY_freed h @ [ec_key k]\<rparr>)
      \<and> (\<forall>j<N. EVP_PKEY_free_times j (Some a) h =
            Done (h\<lparr>pkeys := (pkeys h)(a \<mapsto> k\<lparr>references := references k - of_nat j\<rparr>)\<rparr>)))
   \<and> (pkeys h a = None \<and> int m + 1 < 2 ^ 31 \<longrightarrow>
      bind_outcome (EVP_PKEY_new h (Some a))
        (\<lambda>r. bind_outcome (EVP_PKEY_CTX_new_times ok m (fst r) (snd r))
               (EVP_PKEY_free_times (Suc m) (fst r)))
      = Done (h\<lparr>pkeys := (pkeys h)(a := None), freed := freed h @ [a],
                EC_KEY_freed := EC_KEY_freed h @ [None]\<rparr>)
      \<and> bind_outcome (EVP_PKEY_new h (Some a))
        (\<lambda>r. bind_outcome (EVP_PKEY_CTX_new_times ok m (fst r) (snd r))
               (EVP_PKEY_free_times m (fst r)))
      = Done (h\<lparr>pkeys := (pkeys h)(a \<mapsto> \<lparr>references = 1, ec_key = None\<rparr>)\<rparr>))"
proof (intro conjI impI)
  assume A: "pkeys h a = Some k \<and> evp_pkey_is_valid ok h (Some a) \<and> sint (references k) < 2 ^ 31 - 1"
  then show "EVP_PKEY_CTX_new ok (Some a) None h True pad =
        Done (Some \<lparr>is_initialized_for_signing = False, is_initialized_for_derivation = False,
                     is_initialized_for_encryption = False, is_initialized_for_decryption = False,
                     pkey = Some a, rsa_pad = pad\<rparr>,
              h\<lparr>pkeys := (pkeys h)(a \<mapsto> k\<lparr>references := references k + 1\<rparr>)\<rparr>)"
    using EVP_PKEY_CTX_new_increments[of h a k ok pad] by simp
  have "0 < sint (references k)"
    using A by (auto simp: evp_pkey_is_valid_def word_sless_alt)
  then show "sint (references k + 1) = sint (references k) + 1"
    using A by (intro sint_plus_1) simp_all
next
  assume B: "pkeys h a = Some k \<and> 0 < sint (references k)"
  then show "EVP_PKEY_free (Some a) h =
        Done (if sint (references k) - 1 = 0
              then h\<lparr>pkeys := (pkeys h)(a := None), freed := freed h @ [a],
                     EC_KEY_freed := EC_KEY_freed h @ [ec_key k]\<rparr>
              else h\<lparr>pkeys := (pkeys h)(a \<mapsto> k\<lparr>references := references k - 1\<rparr>)\<rparr>)"
    using EVP_PKEY_free_positive[of h a k] by simp
  show "sint (references k - 1) = sint (references k) - 1"
    using B by (intro sint_minus_1) simp
next
  assume C: "pkeys h a = Some k \<and> sint (references k) = int N \<and> 0 < N"
  then obtain n where N: "N = Suc n" by (cases N) auto
  show "EVP_PKEY_free_times N (Some a) h =
        Done (h\<lparr>pkeys := (pkeys h)(a := None), freed := freed h @ [a],
                EC_KEY_freed := EC_KEY_freed h @ [ec_key k]\<rparr>)"
    unfolding N using C N by (intro EVP_PKEY_free_times_all) simp_all
  show "\<forall>j<N. EVP_PKEY_free_times j (Some a) h =
            Done (h\<lparr>pkeys := (pkeys h)(a \<mapsto> k\<lparr>references := references k - of_nat j\<rparr>)\<rparr>)"
  proof (intro allI impI)
    fix j assume "j < N"
    then show "EVP_PKEY_free_times j (Some a) h =
            Done (h\<lparr>pkeys := (pkeys h)(a \<mapsto> k\<lparr>references := references k - of_nat j\<rparr>)\<rparr>)"
      using C by (intro EVP_PKEY_free_times_partial) simp_all
  qed
next
  assume D: "pkeys h a = None \<and> int m + 1 < 2 ^ 31"
  then show "bind_outcome (EVP_PKEY_new h (Some a))
        (\<lambda>r. bind_outcome (EVP_PKEY_CTX_new_times ok m (fst r) (snd r))
               (EVP_PKEY_free_times (Suc m) (fst r)))
      = Done (h\<lparr>pkeys := (pkeys h)(a := None), freed := freed h @ [a],
                EC_KEY_freed := EC_KEY_freed h @ [None]\<rparr>)"
    by (intro create_attach_release(1)) simp_all
  show "bind_outcome (EVP_PKEY_new h (Some a))
        (\<lambda>r. bind_outcome (EVP_PKEY_CTX_new_times ok m (fst r) (snd r))
               (EVP_PKEY_free_times m (fst r)))
      = Done (h\<lparr>pkeys := (pkeys h)(a \<mapsto> \<lparr>references = 1, ec_key = None\<rparr>)\<rparr>)"
    using D by (intro create_attach_release(2)) simp_all
qed

theorem EVP_PKEY_reference_counting_witness:
  "pkeys (example_key_heap 2) 7 = Some \<lparr>references = 2, ec_key = None\<rparr>
   \<and> evp_pkey_is_valid (\<lambda>e. True) (example_key_heap 2) (Some 7)
   \<and> sint (2 :: c_int) < 2 ^ 31 - 1 \<and> 0 < sint (2 :: c_int)
   \<and> sint (2 :: c_int) = int (Suc (Suc 0)) \<and> 0 < Suc (Suc 0)
   \<and> bind_outcome (EVP_PKEY_CTX_new (\<lambda>e. True) (Some 7) None (example_key_heap 2) True 0)
        (\<lambda>r. evp_pkey_get_reference_count (snd r) (Some 7)) = Done 3
   \<and> bind_outcome (EVP_PKEY_free (Some 7) (example_key_heap 2))
        (\<lambda>h. evp_pkey_get_reference_count h (Some 7)) = Done 1
   \<and> EVP_PKEY_free_times (Suc (Suc 0)) (Some 7) (example_key_heap 2) =
        Done ((example_key_heap 2)\<lparr>pkeys := (pkeys (example_key_heap 2))(7 := None), freed := [7],
                EC_KEY_freed := [None]\<rparr>)
   \<and> pkeys empty_key_heap 7 = None \<and> int (Suc 0) + 1 < 2 ^ 31
   \<and> bind_outcome (EVP_PKEY_new empty_key_heap (Some 7))
        (\<lambda>r. bind_outcome (EVP_PKEY_CTX_new_times (\<lambda>e. True) (Suc 0) (fst r) (snd r))
               (EVP_PKEY_free_times (Suc (Suc 0)) (fst r)))
      = Done (empty_key_heap\<lparr>pkeys := (pkeys empty_key_heap)(7 := None), freed := [7],
                EC_KEY_freed := [None]\<rparr>)"
  using EVP_PKEY_reference_counting[of "example_key_heap 2" 7 "\<lparr>references = 2, ec_key = None\<rparr>"
      "\<lambda>e. True" 0 "Suc (Suc 0)" "Suc 0"]
    EVP_PKEY_reference_counting[of empty_key_heap 7 "\<lparr>references = 2, ec_key = None\<rparr>"
      "\<lambda>e. True" 0 "Suc (Suc 0)" "Suc 0"]
  by (simp add: example_key_heap_def empty_key_heap_def evp_pkey_is_valid_def
      evp_pkey_get_reference_count_def bind_outcome_Done word_sless_alt
      del: EVP_PKEY_free_times.simps EVP_PKEY_CTX_new_times.simps)

section \<open>Key operations that produce bytes\<close>

lemma write_unconstrained_data_ok:
  "unat n \<le> length b \<Longrightarrow>
   write_unconstrained_data (Some b) n f = Done (Some (map f [0..<unat n] @ drop (unat n) b))"
  by (simp add: write_unconstrained_data_def)

lemma written_buffer_shape:
  "n \<le> length b \<Longrightarrow> length (map f [0..<n] @ drop n b) = length b
     \<and> drop n (map f [0..<n] @ drop n b) = drop n b"
  by simp

lemma sle_0_iff: "(r \<le>s 0) = (sint (r::c_int) \<le> 0)"
  by (simp add: word_sle_eq)

lemma sign_fail:
  assumes "EVP_PKEY_sign ok mx h ctx sig siglen tbs tbslen nd = Done (r, sig', siglen')"
    and "sint r \<le> 0"
  shows "sig' = sig \<and> siglen' = siglen"
  using assms
  by (auto simp: EVP_PKEY_sign_def bind_outcome_def write_unconstrained_data_def Let_def
      split: if_splits option.splits)

lemma derive_fail:
  assumes "EVP_PKEY_derive mx ctx key keylen nd = Done (r, key', keylen')"
    and "sint r \<le> 0"
  shows "key' = key \<and> keylen' = keylen"
  using assms
  by (auto simp: EVP_PKEY_derive_def bind_outcome_def write_unconstrained_data_def Let_def
      split: if_splits option.splits)

lemma encrypt_fail:
  assumes "EVP_PKEY_encrypt mx ctx out outlen inp inlen nd = Done (r, out', outlen')"
    and "sint r \<le> 0"
  shows "out' = out \<and> outlen' = outlen"
  using assms
  by (auto simp: EVP_PKEY_encrypt_def bind_outcome_def write_unconstrained_data_def Let_def
      split: if_splits option.splits)

lemma decrypt_fail:
  assumes "EVP_PKEY_decrypt mx ctx out outlen inp inlen nd = Done (r, out', outlen')"
    and "sint r \<le> 0"
  shows "out' = out \<and> outlen' = outlen"
  using assms
  by (auto simp: EVP_PKEY_decrypt_def bind_outcome_def write_unconstrained_data_def Let_def
      split: if_splits option.splits)

lemma digest_final_fail:
  assumes "EVP_DigestFinal_ex ctx md_buf s x nb g = Done (r, c', md_buf', s')" and "r = 0"
  shows "\<exists>b. md_buf = Some b \<and> b \<noteq> [] \<and> md_buf' = Some (b[0 := x])
            \<and> s' = (if s = None then None else Some g) \<and> digest c' = None"
  using assms
  by (auto simp: EVP_DigestFinal_ex_def bind_outcome_def Let_def
      split: if_splits option.splits outcome.splits)

lemma sign_preconditions:
  assumes "evp_pkey_ctx_is_valid ok h (Some c)" and "is_initialized_for_signing c"
    and "tbs \<noteq> None" and "r_ok tbs tbslen"
    and "sig = None \<or> (mx \<le> cap \<and> w_ok sig cap)"
  shows "EVP_PKEY_sign ok mx h (Some c) sig (Some cap) tbs tbslen nd =
    (if nondet_fails nd then
       (if nondet_rv nd \<le>s 0 then Done (nondet_rv nd, sig, Some cap) else Infeasible)
     else if sig = None then Done (1, sig, Some mx)
     else if \<not> amount_of_data_written nd \<le> mx then Infeasible
     else bind_outcome (write_unconstrained_data sig (amount_of_data_written nd) (unconstrained nd))
            (\<lambda>sig'. Done (1, sig', Some (amount_of_data_written nd))))"
proof -
  obtain t where t: "tbs = Some t" using assms(3) by auto
  show ?thesis using assms(1,2,4,5) unfolding t by (simp add: EVP_PKEY_sign_def Let_def)
qed

lemma sign_write_fits:
  assumes "mx \<le> cap" and "w_ok (Some b) cap" and "n \<le> mx"
  shows "unat n \<le> length b"
proof -
  have "unat n \<le> unat cap" using assms(1,3) by (simp add: word_le_nat_alt)
  then show ?thesis using assms(2) by (simp add: w_ok_def)
qed

text \<open>
  C1. On a valid, signing-ready context, with \<open>siglen\<close> not null, \<open>tbs\<close> readable and
  \<open>sig\<close> either null or writable for \<open>*siglen\<close> bytes with \<open>*siglen\<close> at least the maximum
  signature size, \<^verbatim>\<open>EVP_PKEY_sign\<close> never fails an assertion. Its success with a null
  \<open>sig\<close> returns 1 and stores the maximum signature size at \<open>siglen\<close>. Its success with a
  buffer returns 1, writes the chosen amount of unconstrained data, which is at most the
  maximum, to the start of the buffer, keeps the bytes after it, and stores that amount at
  \<open>siglen\<close>. Its failure returns a code that is not positive and leaves both the buffer
  and \<open>*siglen\<close> as they were. Every return is one of these.
\<close>

theorem EVP_PKEY_sign_contract:
  "evp_pkey_ctx_is_valid ok h (Some c) \<and> is_initialized_for_signing c
     \<and> tbs \<noteq> None \<and> r_ok tbs tbslen \<and> (sig = None \<or> (mx \<le> cap \<and> w_ok sig cap)) \<longrightarrow>
   EVP_PKEY_sign ok mx h (Some c) sig (Some cap) tbs tbslen nd \<noteq> Violation
   \<and> (\<not> nondet_fails nd \<and> sig = None \<longrightarrow>
        EVP_PKEY_sign ok mx h (Some c) sig (Some cap) tbs tbslen nd = Done (1, None, Some mx))
   \<and> (\<forall>b. \<not> nondet_fails nd \<and> sig = Some b \<and> amount_of_data_written nd \<le> mx \<longrightarrow>
        EVP_PKEY_sign ok mx h (Some c) sig (Some cap) tbs tbslen nd =
          Done (1,
                Some (map (unconstrained nd) [0..<unat (amount_of_data_written nd)]
                      @ drop (unat (amount_of_data_written nd)) b),
                Some (amount_of_data_written nd))
        \<and> unat (amount_of_data_written nd) \<le> length b)
   \<and> (nondet_fails nd \<and> nondet_rv nd \<le>s 0 \<longrightarrow>
        EVP_PKEY_sign ok mx h (Some c) sig (Some cap) tbs tbslen nd = Done (nondet_rv nd, sig, Some cap))
   \<and> (\<forall>r sig' len'.
        EVP_PKEY_sign ok mx h (Some c) sig (Some cap) tbs tbslen nd = Done (r, sig', len') \<longrightarrow>
          (r = 1 \<and> \<not> nondet_fails nd
             \<and> (sig = None \<longrightarrow> sig' = None \<and> len' = Some mx)
             \<and> (\<forall>b. sig = Some b \<longrightarrow>
                   amount_of_data_written nd \<le> mx
                   \<and> len' = Some (amount_of_data_written nd)
                   \<and> sig' = Some (map (unconstrained nd) [0..<unat (amount_of_data_written nd)]
                                  @ drop (unat (amount_of_data_written nd)) b)))
          \<or> (sint r \<le> 0 \<and> nondet_fails nd \<and> r = nondet_rv nd \<and> sig' = sig \<and> len' = Some cap))"
proof (intro impI)
  assume pre: "evp_pkey_ctx_is_valid ok h (Some c) \<and> is_initialized_for_signing c
     \<and> tbs \<noteq> None \<and> r_ok tbs tbslen \<and> (sig = None \<or> (mx \<le> cap \<and> w_ok sig cap))"
  let ?call = "EVP_PKEY_sign ok mx h (Some c) sig (Some cap) tbs tbslen nd"
  let ?n = "amount_of_data_written nd"
  let ?w = "\<lambda>b. map (unconstrained nd) [0..<unat ?n] @ drop (unat ?n) b"
  have unf: "?call =
    (if nondet_fails nd then
       (if nondet_rv nd \<le>s 0 then Done (nondet_rv nd, sig, Some cap) else Infeasible)
     else if sig = None then Done (1, sig, Some mx)
     else if \<not> ?n \<le> mx then Infeasible
     else bind_outcome (write_unconstrained_data sig ?n (unconstrained nd))
            (\<lambda>sig'. Done (1, sig', Some ?n)))"
    using pre by (intro sign_preconditions) simp_all
  have wr: "write_unconstrained_data sig ?n (unconstrained nd) = Done (Some (?w b))
      \<and> unat ?n \<le> length b"
    if "sig = Some b" and "?n \<le> mx" for b
  proof -
    have "unat ?n \<le> length b" using pre that by (intro sign_write_fits[of mx cap b ?n]) simp_all
    then show ?thesis using that by (simp add: write_unconstrained_data_ok)
  qed
  have nv: "?call \<noteq> Violation"
  proof (cases sig)
    case None
    show ?thesis unfolding unf using None by simp
  next
    case (Some b)
    show ?thesis unfolding unf using wr[of b] Some by (auto simp: bind_outcome_def)
  qed
  have query: "\<not> nondet_fails nd \<and> sig = None \<longrightarrow> ?call = Done (1, None, Some mx)"
    unfolding unf by simp
  have produce: "\<forall>b. \<not> nondet_fails nd \<and> sig = Some b \<and> ?n \<le> mx \<longrightarrow>
        ?call = Done (1, Some (?w b), Some ?n) \<and> unat ?n \<le> length b"
  proof (intro allI impI)
    fix b assume a: "\<not> nondet_fails nd \<and> sig = Some b \<and> ?n \<le> mx"
    then have w: "write_unconstrained_data sig ?n (unconstrained nd) = Done (Some (?w b))"
      and l: "unat ?n \<le> length b" using wr[of b] by simp_all
    have "?call = Done (1, Some (?w b), Some ?n)"
      unfolding unf using a w by (simp add: bind_outcome_def)
    then show "?call = Done (1, Some (?w b), Some ?n) \<and> unat ?n \<le> length b"
      using l by simp
  qed
  have fail: "nondet_fails nd \<and> nondet_rv nd \<le>s 0 \<longrightarrow> ?call = Done (nondet_rv nd, sig, Some cap)"
    unfolding unf by simp
  have every: "\<forall>r sig' len'. ?call = Done (r, sig', len') \<longrightarrow>
          (r = 1 \<and> \<not> nondet_fails nd
             \<and> (sig = None \<longrightarrow> sig' = None \<and> len' = Some mx)
             \<and> (\<forall>b. sig = Some b \<longrightarrow> ?n \<le> mx \<and> len' = Some ?n \<and> sig' = Some (?w b)))
          \<or> (sint r \<le> 0 \<and> nondet_fails nd \<and> r = nondet_rv nd \<and> sig' = sig \<and> len' = Some cap)"
  proof (intro allI impI)
    fix r sig' len' assume "?call = Done (r, sig', len')"
    note d = this[unfolded unf]
    show "(r = 1 \<and> \<not> nondet_fails nd
             \<and> (sig = None \<longrightarrow> sig' = None \<and> len' = Some mx)
             \<and> (\<forall>b. sig = Some b \<longrightarrow> ?n \<le> mx \<and> len' = Some ?n \<and> sig' = Some (?w b)))
          \<or> (sint r \<le> 0 \<and> nondet_fails nd \<and> r = nondet_rv nd \<and> sig' = sig \<and> len' = Some cap)"
    proof (cases "nondet_fails nd")
      case True
      then show ?thesis using d by (auto simp: sle_0_iff split: if_splits)
    next
      case False
      show ?thesis
      proof (cases sig)
        case None
        then show ?thesis using d False by auto
      next
        case (Some b)
        show ?thesis
        proof (cases "?n \<le> mx")
          case le: True
          then have "?call = Done (1, Some (?w b), Some ?n)"
            using produce False Some by simp
          then show ?thesis using \<open>?call = Done (r, sig', len')\<close> False Some le by simp
        next
          case nle: False
          then show ?thesis using d False Some by simp
        qed
      qed
    qed
  qed
  show "?call \<noteq> Violation \<and> (\<not> nondet_fails nd \<and> sig = None \<longrightarrow> ?call = Done (1, None, Some mx))
   \<and> (\<forall>b. \<not> nondet_fails nd \<and> sig = Some b \<and> ?n \<le> mx \<longrightarrow>
        ?call = Done (1, Some (?w b), Some ?n) \<and> unat ?n \<le> length b)
   \<and> (nondet_fails nd \<and> nondet_rv nd \<le>s 0 \<longrightarrow> ?call = Done (nondet_rv nd, sig, Some cap))
   \<and> (\<forall>r sig' len'. ?call = Done (r, sig', len') \<longrightarrow>
          (r = 1 \<and> \<not> nondet_fails nd
             \<and> (sig = None \<longrightarrow> sig' = None \<and> len' = Some mx)
             \<and> (\<forall>b. sig = Some b \<longrightarrow> ?n \<le> mx \<and> len' = Some ?n \<and> sig' = Some (?w b)))
          \<or> (sint r \<le> 0 \<and> nondet_fails nd \<and> r = nondet_rv nd \<and> sig' = sig \<and> len' = Some cap))"
    using nv query produce fail every by (intro conjI)
qed

lemma example_sign_pre:
  "evp_pkey_ctx_is_valid (\<lambda>e. True) (example_key_heap 1) (Some example_pkey_ctx)"
  "is_initialized_for_signing example_pkey_ctx"
  "r_ok (Some zeros16) 16"
  "w_ok (Some zeros16) 16"
  by (simp_all add: evp_pkey_ctx_is_valid_def evp_pkey_is_valid_def example_key_heap_def
      example_pkey_ctx_def word_sless_alt r_ok_def w_ok_def zeros16_def)

lemma example_written:
  "map (unconstrained (example_nondet f r n)) [0..<5] @ drop 5 zeros16
     = [255, 255, 255, 255, 255, 0, 0, 0, 0, 0, 0, 0, 0, 0, 0, 0]"
  by (simp add: example_nondet_def zeros16_def upt_rec)

theorem EVP_PKEY_sign_contract_witness:
  "evp_pkey_ctx_is_valid (\<lambda>e. True) (example_key_heap 1) (Some example_pkey_ctx)
   \<and> is_initialized_for_signing example_pkey_ctx
   \<and> Some zeros16 \<noteq> None \<and> r_ok (Some zeros16) 16 \<and> (8 :: size_t) \<le> 16 \<and> w_ok (Some zeros16) 16
   \<and> EVP_PKEY_sign (\<lambda>e. True) 8 (example_key_heap 1) (Some example_pkey_ctx) None (Some 0)
        (Some zeros16) 16 (example_nondet False 0 5) = Done (1, None, Some 8)
   \<and> EVP_PKEY_sign (\<lambda>e. True) 8 (example_key_heap 1) (Some example_pkey_ctx)
        (Some zeros16) (Some 16) (Some zeros16) 16 (example_nondet False 0 5)
      = Done (1, Some [255, 255, 255, 255, 255, 0, 0, 0, 0, 0, 0, 0, 0, 0, 0, 0], Some 5)
   \<and> EVP_PKEY_sign (\<lambda>e. True) 8 (example_key_heap 1) (Some example_pkey_ctx)
        (Some zeros16) (Some 16) (Some zeros16) 16 (example_nondet True (- 2) 5)
      = Done (- 2, Some zeros16, Some 16)"
proof -
  have n1: "\<not> nondet_fails (example_nondet False 0 5)"
    "amount_of_data_written (example_nondet False 0 5) = 5"
    "nondet_fails (example_nondet True (- 2) 5)" "nondet_rv (example_nondet True (- 2) 5) = - 2"
    by (simp_all add: example_nondet_def)
  have le: "(5 :: size_t) \<le> 8" "(8 :: size_t) \<le> 16" "(- 2 :: c_int) \<le>s 0"
    by (simp_all add: word_sle_eq)
  have u5: "unat (5 :: size_t) = 5" by simp
  have preq: "evp_pkey_ctx_is_valid (\<lambda>e. True) (example_key_heap 1) (Some example_pkey_ctx)
     \<and> is_initialized_for_signing example_pkey_ctx
     \<and> Some zeros16 \<noteq> None \<and> r_ok (Some zeros16) 16
     \<and> (None = None \<or> ((8 :: size_t) \<le> 0 \<and> w_ok None 0))"
    using example_sign_pre by simp
  have prep: "evp_pkey_ctx_is_valid (\<lambda>e. True) (example_key_heap 1) (Some example_pkey_ctx)
     \<and> is_initialized_for_signing example_pkey_ctx
     \<and> Some zeros16 \<noteq> None \<and> r_ok (Some zeros16) 16
     \<and> (Some zeros16 = None \<or> ((8 :: size_t) \<le> 16 \<and> w_ok (Some zeros16) 16))"
    using example_sign_pre le by simp
  note q = EVP_PKEY_sign_contract[of "\<lambda>e. True" "example_key_heap 1" example_pkey_ctx
      "Some zeros16" 16 None 8 0 "example_nondet False 0 5", THEN mp, OF preq]
  note p = EVP_PKEY_sign_contract[of "\<lambda>e. True" "example_key_heap 1" example_pkey_ctx
      "Some zeros16" 16 "Some zeros16" 8 16 "example_nondet False 0 5", THEN mp, OF prep]
  note f = EVP_PKEY_sign_contract[of "\<lambda>e. True" "example_key_heap 1" example_pkey_ctx
      "Some zeros16" 16 "Some zeros16" 8 16 "example_nondet True (- 2) 5", THEN mp, OF prep]
  have r1: "EVP_PKEY_sign (\<lambda>e. True) 8 (example_key_heap 1) (Some example_pkey_ctx) None (Some 0)
        (Some zeros16) 16 (example_nondet False 0 5) = Done (1, None, Some 8)"
    using q[THEN conjunct2, THEN conjunct1] n1(1) by simp
  have "EVP_PKEY_sign (\<lambda>e. True) 8 (example_key_heap 1) (Some example_pkey_ctx)
        (Some zeros16) (Some 16) (Some zeros16) 16 (example_nondet False 0 5)
      = Done (1, Some (map (unconstrained (example_nondet False 0 5))
                        [0..<unat (amount_of_data_written (example_nondet False 0 5))]
                      @ drop (unat (amount_of_data_written (example_nondet False 0 5))) zeros16),
              Some (amount_of_data_written (example_nondet False 0 5)))"
    using p[THEN conjunct2, THEN conjunct2, THEN conjunct1, THEN spec, of zeros16, THEN mp, THEN conjunct1]
      n1(1) le(1) by (simp only: n1(2) simp_thms)
  then have r2: "EVP_PKEY_sign (\<lambda>e. True) 8 (example_key_heap 1) (Some example_pkey_ctx)
        (Some zeros16) (Some 16) (Some zeros16) 16 (example_nondet False 0 5)
      = Done (1, Some [255, 255, 255, 255, 255, 0, 0, 0, 0, 0, 0, 0, 0, 0, 0, 0], Some 5)"
    by (simp only: n1(2) u5 example_written)
  have r3: "EVP_PKEY_sign (\<lambda>e. True) 8 (example_key_heap 1) (Some example_pkey_ctx)
        (Some zeros16) (Some 16) (Some zeros16) 16 (example_nondet True (- 2) 5)
      = Done (- 2, Some zeros16, Some 16)"
    using f[THEN conjunct2, THEN conjunct2, THEN conjunct2, THEN conjunct1] n1(3,4) le(3)
    by (simp only: simp_thms)
  show ?thesis using example_sign_pre le(2) r1 r2 r3 by (simp only: simp_thms option.distinct not_False_eq_True)
qed

text \<open>
  C4, as stated, fails: the amount that \<^verbatim>\<open>EVP_PKEY_derive\<close> writes is bounded by the
  capacity passed in \<open>*keylen\<close> only. With maximum derived-secret size 8 and a buffer of
  capacity 16 a successful call reports 12 bytes.
\<close>

theorem EVP_PKEY_derive_exceeds_maximum_counterexample:
  "is_initialized_for_derivation example_pkey_ctx
   \<and> EVP_PKEY_derive 8 (Some example_pkey_ctx) (Some zeros16) (Some 16) (example_nondet False 0 12)
      = Done (1, Some [255, 255, 255, 255, 255, 255, 255, 255, 255, 255, 255, 255, 0, 0, 0, 0], Some 12)
   \<and> \<not> (12 :: size_t) \<le> 8"
  by (simp add: EVP_PKEY_derive_def example_pkey_ctx_def example_nondet_def zeros16_def
      write_unconstrained_data_def bind_outcome_def upt_rec)

text \<open>
  C4, amended. On a context initialised for derivation, a successful \<^verbatim>\<open>EVP_PKEY_derive\<close>
  with a null buffer stores the maximum derived-secret size at \<open>keylen\<close>; a successful call
  with a buffer stores at \<open>keylen\<close> the amount written, which is at most the capacity the
  caller passed in \<open>*keylen\<close>, and every amount up to that capacity that fits the buffer is
  possible. The buffer then holds that amount of unconstrained data at its start and its
  former bytes after it.
\<close>

theorem EVP_PKEY_derive_contract:
  "is_initialized_for_derivation c \<longrightarrow>
     (\<not> nondet_fails nd \<longrightarrow>
        EVP_PKEY_derive mx (Some c) None (Some cap) nd = Done (1, None, Some mx))
     \<and> (\<not> nondet_fails nd \<and> amount_of_data_written nd \<le> cap
          \<and> unat (amount_of_data_written nd) \<le> length b \<longrightarrow>
        (\<exists>b'. EVP_PKEY_derive mx (Some c) (Some b) (Some cap) nd =
                 Done (1, Some b', Some (amount_of_data_written nd))
              \<and> length b' = length b
              \<and> drop (unat (amount_of_data_written nd)) b' = drop (unat (amount_of_data_written nd)) b))
     \<and> (\<forall>key' len'.
          EVP_PKEY_derive mx (Some c) (Some b) (Some cap) nd = Done (1, key', len') \<longrightarrow>
            (\<exists>n. len' = Some n \<and> n \<le> cap \<and> n = amount_of_data_written nd))
     \<and> (\<forall>key' len'.
          EVP_PKEY_derive mx (Some c) (Some b) (Some cap) nd = Done (1, key', len') \<longrightarrow>
            key' = Some (map (unconstrained nd) [0..<unat (amount_of_data_written nd)]
                         @ drop (unat (amount_of_data_written nd)) b))"
proof (intro impI conjI allI)
  assume i: "is_initialized_for_derivation c"
  assume "\<not> nondet_fails nd"
  then show "EVP_PKEY_derive mx (Some c) None (Some cap) nd = Done (1, None, Some mx)"
    using i by (simp add: EVP_PKEY_derive_def)
next
  let ?n = "amount_of_data_written nd"
  assume i: "is_initialized_for_derivation c"
  assume a: "\<not> nondet_fails nd \<and> ?n \<le> cap \<and> unat ?n \<le> length b"
  then have "EVP_PKEY_derive mx (Some c) (Some b) (Some cap) nd =
      Done (1, Some (map (unconstrained nd) [0..<unat ?n] @ drop (unat ?n) b), Some ?n)"
    using i by (simp add: EVP_PKEY_derive_def write_unconstrained_data_ok bind_outcome_def)
  then show "\<exists>b'. EVP_PKEY_derive mx (Some c) (Some b) (Some cap) nd = Done (1, Some b', Some ?n)
              \<and> length b' = length b \<and> drop (unat ?n) b' = drop (unat ?n) b"
    using a written_buffer_shape[of "unat ?n" b "unconstrained nd"] by simp
next
  fix key' len'
  assume i: "is_initialized_for_derivation c"
  assume "EVP_PKEY_derive mx (Some c) (Some b) (Some cap) nd = Done (1, key', len')"
  then show "\<exists>n. len' = Some n \<and> n \<le> cap \<and> n = amount_of_data_written nd"
    using i
    by (auto simp: EVP_PKEY_derive_def bind_outcome_def write_unconstrained_data_def Let_def
        word_sle_eq split: if_splits)
next
  fix key' len'
  assume i: "is_initialized_for_derivation c"
  assume "EVP_PKEY_derive mx (Some c) (Some b) (Some cap) nd = Done (1, key', len')"
  then show "key' = Some (map (unconstrained nd) [0..<unat (amount_of_data_written nd)]
                         @ drop (unat (amount_of_data_written nd)) b)"
    using i
    by (auto simp: EVP_PKEY_derive_def bind_outcome_def write_unconstrained_data_def Let_def
        word_sle_eq split: if_splits)
qed

theorem EVP_PKEY_derive_contract_witness:
  "is_initialized_for_derivation example_pkey_ctx
   \<and> \<not> nondet_fails (example_nondet False 0 12)
   \<and> amount_of_data_written (example_nondet False 0 12) \<le> 16
   \<and> unat (amount_of_data_written (example_nondet False 0 12)) \<le> length zeros16
   \<and> EVP_PKEY_derive 8 (Some example_pkey_ctx) None (Some 16) (example_nondet False 0 12)
      = Done (1, None, Some 8)
   \<and> (\<exists>b'. EVP_PKEY_derive 8 (Some example_pkey_ctx) (Some zeros16) (Some 16) (example_nondet False 0 12)
        = Done (1, Some b', Some 12) \<and> length b' = length zeros16 \<and> drop 12 b' = drop 12 zeros16)"
proof -
  have n1: "\<not> nondet_fails (example_nondet False 0 12)"
    "amount_of_data_written (example_nondet False 0 12) = 12"
    by (simp_all add: example_nondet_def)
  have h: "is_initialized_for_derivation example_pkey_ctx" "(12 :: size_t) \<le> 16"
    "length zeros16 = 16"
    by (simp_all add: example_pkey_ctx_def zeros16_def)
  show ?thesis
    using EVP_PKEY_derive_contract[of example_pkey_ctx "example_nondet False 0 12" 8 16 zeros16] n1 h
    by simp
qed

section \<open>Failure returns\<close>

text \<open>
  C2, as stated, fails: \<^verbatim>\<open>EVP_DigestFinal_ex\<close> stores a byte into \<open>md\<close> before it chooses
  between success and failure, so a call that returns 0 has written the first byte of
  \<open>md\<close>.
\<close>

theorem EVP_DigestFinal_ex_failure_writes_md_counterexample:
  "EVP_DigestFinal_ex (Some example_md_ctx) (Some zeros16) (Some 0) 255 True 999
     = Done (0, example_md_ctx\<lparr>digest := None\<rparr>,
             Some [255, 0, 0, 0, 0, 0, 0, 0, 0, 0, 0, 0, 0, 0, 0, 0], Some 999)
   \<and> [255, 0, 0, 0, 0, 0, 0, 0, 0, 0, 0, 0, 0, 0, 0, 0] \<noteq> zeros16"
  by (simp add: EVP_DigestFinal_ex_def EVP_MD_CTX_size_def EVP_MD_size_def example_md_ctx_def
      EVP_md5_def zeros16_def bind_outcome_def w_ok_def int_to_size_t_def)

text \<open>
  C2, amended. A return of \<^verbatim>\<open>EVP_PKEY_sign\<close>, \<^verbatim>\<open>EVP_PKEY_derive\<close>, \<^verbatim>\<open>EVP_PKEY_encrypt\<close> or
  \<^verbatim>\<open>EVP_PKEY_decrypt\<close> with a code that is not positive leaves the output buffer and the
  size at the length pointer as they were. A return of 0 from \<^verbatim>\<open>EVP_DigestFinal_ex\<close> leaves
  \<open>md\<close> as it was except for its first byte, which holds an unconstrained value; the
  length at \<open>s\<close>, when \<open>s\<close> is not null, is undefined, and the context has no descriptor.
\<close>

theorem failure_leaves_outputs:
  "(EVP_PKEY_sign ok mx h kctx buf len tbs tbslen nd = Done (r, buf', len') \<and> sint r \<le> 0
      \<longrightarrow> buf' = buf \<and> len' = len)
   \<and> (EVP_PKEY_derive mx kctx buf len nd = Done (r, buf', len') \<and> sint r \<le> 0
      \<longrightarrow> buf' = buf \<and> len' = len)
   \<and> (EVP_PKEY_encrypt mx kctx buf len inp inlen nd = Done (r, buf', len') \<and> sint r \<le> 0
      \<longrightarrow> buf' = buf \<and> len' = len)
   \<and> (EVP_PKEY_decrypt mx kctx buf len inp inlen nd = Done (r, buf', len') \<and> sint r \<le> 0
      \<longrightarrow> buf' = buf \<and> len' = len)
   \<and> (EVP_DigestFinal_ex mctx md_buf s x nb g = Done (0, c', md_buf', s')
      \<longrightarrow> (\<exists>b. md_buf = Some b \<and> b \<noteq> [] \<and> md_buf' = Some (b[0 := x])
                \<and> s' = (if s = None then None else Some g) \<and> digest c' = None))"
proof (intro conjI impI)
  assume "EVP_PKEY_sign ok mx h kctx buf len tbs tbslen nd = Done (r, buf', len') \<and> sint r \<le> 0"
  then show "buf' = buf" "len' = len"
    using sign_fail[of ok mx h kctx buf len tbs tbslen nd r buf' len'] by simp_all
next
  assume "EVP_PKEY_derive mx kctx buf len nd = Done (r, buf', len') \<and> sint r \<le> 0"
  then show "buf' = buf" "len' = len"
    using derive_fail[of mx kctx buf len nd r buf' len'] by simp_all
next
  assume "EVP_PKEY_encrypt mx kctx buf len inp inlen nd = Done (r, buf', len') \<and> sint r \<le> 0"
  then show "buf' = buf" "len' = len"
    using encrypt_fail[of mx kctx buf len inp inlen nd r buf' len'] by simp_all
next
  assume "EVP_PKEY_decrypt mx kctx buf len inp inlen nd = Done (r, buf', len') \<and> sint r \<le> 0"
  then show "buf' = buf" "len' = len"
    using decrypt_fail[of mx kctx buf len inp inlen nd r buf' len'] by simp_all
next
  assume "EVP_DigestFinal_ex mctx md_buf s x nb g = Done (0, c', md_buf', s')"
  then show "\<exists>b. md_buf = Some b \<and> b \<noteq> [] \<and> md_buf' = Some (b[0 := x])
                \<and> s' = (if s = None then None else Some g) \<and> digest c' = None"
    by (rule digest_final_fail) simp
qed

theorem failure_leaves_outputs_witness:
  "EVP_PKEY_sign (\<lambda>e. True) 8 (example_key_heap 1) (Some example_pkey_ctx)
        (Some zeros16) (Some 16) (Some zeros16) 16 (example_nondet True (- 2) 5)
      = Done (- 2, Some zeros16, Some 16)
   \<and> EVP_PKEY_derive 8 (Some example_pkey_ctx) (Some zeros16) (Some 16) (example_nondet True 0 5)
      = Done (0, Some zeros16, Some 16)
   \<and> EVP_PKEY_encrypt 8 (Some example_pkey_ctx) (Some zeros16) (Some 16) (Some zeros16) 16
        (example_nondet True 0 5) = Done (0, Some zeros16, Some 16)
   \<and> EVP_PKEY_decrypt 8 (Some example_pkey_ctx) (Some zeros16) (Some 16) (Some zeros16) 16
        (example_nondet True (- 1) 5) = Done (- 1, Some zeros16, Some 16)
   \<and> sint (- 2 :: c_int) \<le> 0 \<and> sint (0 :: c_int) \<le> 0 \<and> sint (- 1 :: c_int) \<le> 0
   \<and> EVP_DigestFinal_ex (Some example_md_ctx) (Some zeros16) (Some 0) 255 True 999
     = Done (0, example_md_ctx\<lparr>digest := None\<rparr>, Some (zeros16[0 := 255]), Some 999)
   \<and> (\<exists>b. Some zeros16 = Some b \<and> b \<noteq> [] \<and> Some (zeros16[0 := 255]) = Some (b[0 := 255])
         \<and> Some (999 :: c_uint) = (if Some (0 :: c_uint) = None then None else Some 999)
         \<and> digest (example_md_ctx\<lparr>digest := None\<rparr>) = None)"
proof -
  have s: "EVP_PKEY_sign (\<lambda>e. True) 8 (example_key_heap 1) (Some example_pkey_ctx)
        (Some zeros16) (Some 16) (Some zeros16) 16 (example_nondet True (- 2) 5)
      = Done (- 2, Some zeros16, Some 16)"
    by (simp add: EVP_PKEY_sign_def evp_pkey_ctx_is_valid_def evp_pkey_is_valid_def
        example_key_heap_def example_pkey_ctx_def example_nondet_def word_sless_alt word_sle_eq
        r_ok_def w_ok_def zeros16_def)
  have d: "EVP_PKEY_derive 8 (Some example_pkey_ctx) (Some zeros16) (Some 16) (example_nondet True 0 5)
      = Done (0, Some zeros16, Some 16)"
    by (simp add: EVP_PKEY_derive_def example_pkey_ctx_def example_nondet_def word_sle_eq)
  have e: "EVP_PKEY_encrypt 8 (Some example_pkey_ctx) (Some zeros16) (Some 16) (Some zeros16) 16
        (example_nondet True 0 5) = Done (0, Some zeros16, Some 16)"
    by (simp add: EVP_PKEY_encrypt_def example_pkey_ctx_def example_nondet_def word_sle_eq)
  have c: "EVP_PKEY_decrypt 8 (Some example_pkey_ctx) (Some zeros16) (Some 16) (Some zeros16) 16
        (example_nondet True (- 1) 5) = Done (- 1, Some zeros16, Some 16)"
    by (simp add: EVP_PKEY_decrypt_def example_pkey_ctx_def example_nondet_def word_sle_eq)
  have f: "EVP_DigestFinal_ex (Some example_md_ctx) (Some zeros16) (Some 0) 255 True 999
     = Done (0, example_md_ctx\<lparr>digest := None\<rparr>, Some (zeros16[0 := 255]), Some 999)"
    by (simp add: EVP_DigestFinal_ex_def EVP_MD_CTX_size_def EVP_MD_size_def example_md_ctx_def
      EVP_md5_def zeros16_def bind_outcome_def w_ok_def int_to_size_t_def)
  show ?thesis
    using s d e c f
      failure_leaves_outputs[of "\<lambda>e. True" 8 "example_key_heap 1" "Some example_pkey_ctx"
        "Some zeros16" "Some 16" "Some zeros16" 16 "example_nondet True (- 2) 5" "- 2"
        "Some zeros16" "Some 16" "Some zeros16" 16 "Some example_md_ctx" "Some zeros16" "Some 0"
        255 True 999 "example_md_ctx\<lparr>digest := None\<rparr>" "Some (zeros16[0 := 255])" "Some 999"]
    by simp
qed

section \<open>Cipher contexts\<close>

lemma size_t_to_int_bounded:
  assumes "0 \<le> sint b" and "out_size \<le> int_to_size_t b"
  shows "0 \<le> sint (size_t_to_int out_size) \<and> sint (size_t_to_int out_size) \<le> sint b"
proof -
  have ub: "uint (int_to_size_t b) = sint b" using assms(1) by (rule uint_int_to_size_t)
  have "uint out_size \<le> uint (int_to_size_t b)" using assms(2) by (simp add: word_le_def)
  then have le: "uint out_size \<le> sint b" using ub by simp
  have lt: "sint b < 2 ^ 31" using sint_c_int_bounds[of b] by simp
  have "sint (size_t_to_int out_size) = signed_take_bit 31 (uint out_size)"
    by (simp add: size_t_to_int_def signed_ucast_eq)
  also have "\<dots> = uint out_size"
  proof -
    have lo: "- (2 ^ 31) \<le> uint out_size" by (rule order_trans[where y=0]) simp_all
    have hi: "uint out_size < 2 ^ 31" using le lt by simp
    show ?thesis by (rule signed_take_bit_int_eq_self[OF lo hi])
  qed
  finally show ?thesis using le by simp
qed

lemma EVP_EncryptUpdate_Done:
  assumes "cipher c \<noteq> None" and "out \<noteq> None"
    and "EVP_EncryptUpdate (Some c) out outl inp inl rv out_size = Done (r, c', outl')"
  shows "out_size \<le> int_to_size_t (inl - 1) \<and> outl' = Some (size_t_to_int out_size)"
  using assms
  by (auto simp: EVP_EncryptUpdate_def bind_outcome_def split: if_splits option.splits)

lemma EVP_DecryptUpdate_Done:
  assumes "cipher c \<noteq> None" and "out \<noteq> None" and "padding c"
    and "EVP_DecryptUpdate (Some c) out outl inp inl rv out_size = Done (r, c', outl')"
  shows "out_size \<le> int_to_size_t inl \<and> outl' = Some (size_t_to_int out_size)"
  using assms
  by (auto simp: EVP_DecryptUpdate_def bind_outcome_def split: if_splits option.splits)

lemma EVP_EncryptUpdate_bounded:
  assumes "cipher c \<noteq> None" and "out \<noteq> None" and "1 \<le> sint inl"
    and "EVP_EncryptUpdate (Some c) out outl inp inl rv out_size = Done (r, c', outl')"
  shows "\<exists>n. outl' = Some n \<and> 0 \<le> sint n \<and> sint n \<le> sint inl - 1"
proof -
  have d: "out_size \<le> int_to_size_t (inl - 1)" "outl' = Some (size_t_to_int out_size)"
    using EVP_EncryptUpdate_Done[OF assms(1,2,4)] by simp_all
  have m: "sint (inl - 1) = sint inl - 1" using assms(3) by (intro sint_minus_1) simp
  then have "0 \<le> sint (inl - 1)" using assms(3) by simp
  then show ?thesis using size_t_to_int_bounded[of "inl - 1" out_size] d m by simp
qed

lemma EVP_DecryptUpdate_bounded:
  assumes "cipher c \<noteq> None" and "out \<noteq> None" and "padding c" and "0 \<le> sint inl"
    and "EVP_DecryptUpdate (Some c) out outl inp inl rv out_size = Done (r, c', outl')"
  shows "\<exists>n. outl' = Some n \<and> 0 \<le> sint n \<and> sint n \<le> sint inl"
proof -
  have d: "out_size \<le> int_to_size_t inl" "outl' = Some (size_t_to_int out_size)"
    using EVP_DecryptUpdate_Done[OF assms(1,2,3,5)] by simp_all
  then show ?thesis using size_t_to_int_bounded[of inl out_size] assms(4) by simp
qed

text \<open>
  C3, as stated, fails: with a cipher configured and padding disabled,
  \<^verbatim>\<open>EVP_DecryptUpdate\<close> puts no bound on \<^verbatim>\<open>out_size\<close> other than the size of the output
  object. With an input of 4 bytes and an output buffer of 8 bytes it reports 8.
\<close>

theorem EVP_DecryptUpdate_no_padding_counterexample:
  "cipher example_decrypt_ctx \<noteq> None \<and> \<not> data_processed example_decrypt_ctx
   \<and> EVP_DecryptUpdate (Some example_decrypt_ctx) (Some (replicate 8 0)) (Some 0)
        (Some (replicate 4 0)) 4 1 8 = Done (1, example_decrypt_ctx, Some 8)
   \<and> \<not> sint (8 :: c_int) \<le> sint (4 :: c_int)"
  by (simp add: EVP_DecryptUpdate_def example_decrypt_ctx_def bind_outcome_def OBJECT_SIZE_def
      w_ok_def size_t_to_int_def)

text \<open>
  C3, amended. With a cipher configured and \<open>out\<close> not null, every return of
  \<^verbatim>\<open>EVP_EncryptUpdate\<close> with \<open>inl \<ge> 1\<close> reports a length between 0 and \<open>inl - 1\<close>, and every
  return of \<^verbatim>\<open>EVP_DecryptUpdate\<close> with padding enabled and \<open>inl \<ge> 0\<close> reports a length
  between 0 and \<open>inl\<close>; \<^verbatim>\<open>EVP_CipherUpdate\<close> reports a length between 0 and \<open>inl\<close> in the
  case it dispatches to. A call on a finalized context does not return.
\<close>

theorem cipher_update_length_bounded:
  "cipher c \<noteq> None \<and> out \<noteq> None \<longrightarrow>
     (1 \<le> sint inl \<and> EVP_EncryptUpdate (Some c) out outl inp inl rv out_size = Done (r, c', outl')
        \<longrightarrow> (\<exists>n. outl' = Some n \<and> 0 \<le> sint n \<and> sint n \<le> sint inl - 1))
     \<and> (padding c \<and> 0 \<le> sint inl
          \<and> EVP_DecryptUpdate (Some c) out outl inp inl rv out_size = Done (r, c', outl')
        \<longrightarrow> (\<exists>n. outl' = Some n \<and> 0 \<le> sint n \<and> sint n \<le> sint inl))
     \<and> (((encrypt c \<noteq> 0 \<and> 1 \<le> sint inl) \<or> (encrypt c = 0 \<and> padding c \<and> 0 \<le> sint inl))
          \<and> EVP_CipherUpdate (Some c) out outl inp inl rv out_size = Done (r, c', outl')
        \<longrightarrow> (\<exists>n. outl' = Some n \<and> 0 \<le> sint n \<and> sint n \<le> sint inl))"
proof (intro impI conjI)
  assume a: "cipher c \<noteq> None \<and> out \<noteq> None"
  assume "1 \<le> sint inl \<and> EVP_EncryptUpdate (Some c) out outl inp inl rv out_size = Done (r, c', outl')"
  then show "\<exists>n. outl' = Some n \<and> 0 \<le> sint n \<and> sint n \<le> sint inl - 1"
    using a EVP_EncryptUpdate_bounded[of c out inl outl inp rv out_size r c' outl'] by simp
next
  assume a: "cipher c \<noteq> None \<and> out \<noteq> None"
  assume "padding c \<and> 0 \<le> sint inl
          \<and> EVP_DecryptUpdate (Some c) out outl inp inl rv out_size = Done (r, c', outl')"
  then show "\<exists>n. outl' = Some n \<and> 0 \<le> sint n \<and> sint n \<le> sint inl"
    using a EVP_DecryptUpdate_bounded[of c out inl outl inp rv out_size r c' outl'] by simp
next
  assume a: "cipher c \<noteq> None \<and> out \<noteq> None"
  assume b: "((encrypt c \<noteq> 0 \<and> 1 \<le> sint inl) \<or> (encrypt c = 0 \<and> padding c \<and> 0 \<le> sint inl))
          \<and> EVP_CipherUpdate (Some c) out outl inp inl rv out_size = Done (r, c', outl')"
  show "\<exists>n. outl' = Some n \<and> 0 \<le> sint n \<and> sint n \<le> sint inl"
  proof (cases "encrypt c \<noteq> 0")
    case True
    then have "EVP_EncryptUpdate (Some c) out outl inp inl rv out_size = Done (r, c', outl')"
      and "1 \<le> sint inl"
      using b by (simp_all add: EVP_CipherUpdate_def)
    then have "\<exists>n. outl' = Some n \<and> 0 \<le> sint n \<and> sint n \<le> sint inl - 1"
      using a EVP_EncryptUpdate_bounded[of c out inl outl inp rv out_size r c' outl'] by simp
    then show ?thesis by auto
  next
    case False
    then have "EVP_DecryptUpdate (Some c) out outl inp inl rv out_size = Done (r, c', outl')"
      and "padding c" and "0 \<le> sint inl"
      using b by (simp_all add: EVP_CipherUpdate_def)
    then show ?thesis
      using a EVP_DecryptUpdate_bounded[of c out inl outl inp rv out_size r c' outl'] by simp
  qed
qed

theorem cipher_update_length_bounded_witness:
  "cipher example_cipher_ctx \<noteq> None \<and> Some (replicate 8 (0::byte)) \<noteq> None
   \<and> 1 \<le> sint (4 :: c_int) \<and> padding example_cipher_ctx \<and> encrypt example_cipher_ctx \<noteq> 0
   \<and> EVP_EncryptUpdate (Some example_cipher_ctx) (Some (replicate 8 0)) (Some 0)
        (Some (replicate 4 0)) 4 1 3 = Done (1, example_cipher_ctx, Some 3)
   \<and> EVP_DecryptUpdate (Some example_cipher_ctx) (Some (replicate 8 0)) (Some 0)
        (Some (replicate 4 0)) 4 1 4 = Done (1, example_cipher_ctx, Some 4)
   \<and> EVP_CipherUpdate (Some example_cipher_ctx) (Some (replicate 8 0)) (Some 0)
        (Some (replicate 4 0)) 4 1 3 = Done (1, example_cipher_ctx, Some 3)
   \<and> (\<exists>n. Some (3 :: c_int) = Some n \<and> 0 \<le> sint n \<and> sint n \<le> sint (4 :: c_int) - 1)
   \<and> (\<exists>n. Some (4 :: c_int) = Some n \<and> 0 \<le> sint n \<and> sint n \<le> sint (4 :: c_int))"
proof -
  have e: "EVP_EncryptUpdate (Some example_cipher_ctx) (Some (replicate 8 0)) (Some 0)
        (Some (replicate 4 0)) 4 1 3 = Done (1, example_cipher_ctx, Some 3)"
    by (simp add: EVP_EncryptUpdate_def example_cipher_ctx_def bind_outcome_def OBJECT_SIZE_def
      w_ok_def size_t_to_int_def int_to_size_t_def)
  have d: "EVP_DecryptUpdate (Some example_cipher_ctx) (Some (replicate 8 0)) (Some 0)
        (Some (replicate 4 0)) 4 1 4 = Done (1, example_cipher_ctx, Some 4)"
    by (simp add: EVP_DecryptUpdate_def example_cipher_ctx_def bind_outcome_def OBJECT_SIZE_def
      w_ok_def size_t_to_int_def int_to_size_t_def)
  have u: "EVP_CipherUpdate (Some example_cipher_ctx) (Some (replicate 8 0)) (Some 0)
        (Some (replicate 4 0)) 4 1 3 = Done (1, example_cipher_ctx, Some 3)"
    using e by (simp add: EVP_CipherUpdate_def example_cipher_ctx_def)
  have h: "cipher example_cipher_ctx \<noteq> None" "padding example_cipher_ctx"
    "encrypt example_cipher_ctx \<noteq> 0"
    by (simp_all add: example_cipher_ctx_def)
  show ?thesis
    using cipher_update_length_bounded[of example_cipher_ctx "Some (replicate 8 0)" 4 "Some 0"
        "Some (replicate 4 0)" 1 3 1 example_cipher_ctx "Some 3"]
      cipher_update_length_bounded[of example_cipher_ctx "Some (replicate 8 0)" 4 "Some 0"
        "Some (replicate 4 0)" 1 4 1 example_cipher_ctx "Some 4"]
      e d u h
    by simp
qed

text \<open>
  C9. \<^verbatim>\<open>EVP_CipherInit_ex\<close> with \<open>enc\<close> among 0, 1 and \<open>-1\<close> returns the same context
  whether it returns 1 or 0: the direction is \<open>enc\<close> unless \<open>enc\<close> is \<open>-1\<close>, the cipher
  descriptor is the argument unless it is null, and the flag \<^verbatim>\<open>iv_set\<close> is true when \<open>iv\<close>
  is not null. A failure return therefore carries the new configuration.
\<close>

theorem EVP_CipherInit_ex_configures_before_result:
  "(enc = 0 \<or> enc = 1 \<or> enc = - 1) \<and> (rv = 0 \<or> rv = 1) \<longrightarrow>
     (\<exists>c'. EVP_CipherInit_ex (Some c) ciph impl key iv enc rv = Done (rv, c')
        \<and> EVP_CipherInit_ex (Some c) ciph impl key iv enc 0 = Done (0, c')
        \<and> EVP_CipherInit_ex (Some c) ciph impl key iv enc 1 = Done (1, c')
        \<and> encrypt c' = (if enc = - 1 then encrypt c else enc)
        \<and> cipher c' = (if ciph = None then cipher c else ciph)
        \<and> iv_set c' = (if iv = None then iv_set c else True))"
  by (auto simp: EVP_CipherInit_ex_def Let_def)

theorem EVP_CipherInit_ex_configures_before_result_witness:
  "((1 :: c_int) = 0 \<or> (1 :: c_int) = 1 \<or> (1 :: c_int) = - 1) \<and> ((0 :: c_int) = 0 \<or> (0 :: c_int) = 1)
   \<and> (\<exists>c'. EVP_CipherInit_ex (Some example_decrypt_ctx) (Some EVP_aes_256_gcm) None None
              (Some zeros16) 1 0 = Done (0, c')
         \<and> encrypt c' = 1 \<and> cipher c' = Some EVP_aes_256_gcm \<and> iv_set c' = True
         \<and> c' \<noteq> example_decrypt_ctx)"
proof -
  have "encrypt example_decrypt_ctx = 0" by (simp add: example_decrypt_ctx_def)
  then show ?thesis
    using EVP_CipherInit_ex_configures_before_result[of 1 0 example_decrypt_ctx
        "Some EVP_aes_256_gcm" None None "Some zeros16"]
    by auto
qed

section \<open>HMAC\<close>

text \<open>
  C8 at a buffer that is too short. With the SHA-256 descriptor set, \<^verbatim>\<open>HMAC_Final\<close> on an
  output buffer of one byte returns 1 and reports 32 bytes: the result of
  \<^verbatim>\<open>__CPROVER_w_ok(md, md_size)\<close> is dropped, the call is not rejected.
\<close>

theorem HMAC_Final_accepts_short_buffer:
  "hmac_ctx_is_valid (Some \<lparr>is_initialized = True, md = Some EVP_sha256\<rparr>)
   \<and> HMAC_Update (Some \<lparr>is_initialized = True, md = Some EVP_sha256\<rparr>) (Some zeros16) 16 1 = Done 1
   \<and> EVP_MD_size (Some EVP_sha256) = Done 32
   \<and> \<not> w_ok (Some [0]) (int_to_size_t 32)
   \<and> HMAC_Final (Some \<lparr>is_initialized = True, md = Some EVP_sha256\<rparr>) (Some [0]) (Some 0) 1
       = Done (1, Some [0], Some 32)"
  by (simp add: HMAC_Final_def HMAC_Update_def hmac_ctx_is_valid_def EVP_MD_size_def EVP_sha256_def
      bind_outcome_def w_ok_def int_to_size_t_def)

end
